theory Spec2Isabelle
  imports Complex_Main
begin

section \<open>JavaScript values\<close>

text \<open>
  JavaScript numbers are modelled as reals: rounding and overflow are outside the
  model.  Where the source can compute NaN from finite numbers (the two clamps of a
  particle) the model says so explicitly, with \<open>None\<close> standing for a particle whose
  velocity has become NaN.  An error that the source throws is a value of \<open>js_error\<close>.
\<close>

datatype js_error = TypeError | SyntaxError | RangeError

text \<open>
  \<open>v || d\<close> for a numeric option field: \<open>undefined\<close> (\<open>None\<close>) and \<open>0\<close> are
  falsy, every other number is kept.
\<close>

definition js_or :: "real option \<Rightarrow> real \<Rightarrow> real" where
  "js_or v d = (case v of None \<Rightarrow> d | Some n \<Rightarrow> if n = 0 then d else n)"

section \<open>Particle.js\<close>

text \<open>
  The options object handed to particles and to the physics engine
  (\<open>PARTICLE_CONFIG.defaultOptions\<close> lists its fields).  A numeric field may be
  missing; a missing boolean field is falsy.
\<close>

record 'n options_of =
  opt_size :: "'n option"
  opt_friction :: "'n option"
  opt_bounceDecay :: "'n option"
  opt_maxAcceleration :: "'n option"
  opt_maxVelocity :: "'n option"
  opt_maxDistance :: "'n option"
  opt_collisionDistanceRatio :: "'n option"
  opt_forceMultiplier :: "'n option"
  opt_minDistanceToEdges :: "'n option"
  opt_edgeRepulsionForce :: "'n option"
  opt_enableVelocityClamp :: bool
  opt_enableAccelerationClamp :: bool
  opt_useQuadtree :: bool
  opt_quadtreeCapacity :: nat

record 'n particle_of =
  p_id :: nat
  p_x :: 'n
  p_y :: 'n
  p_vx :: 'n
  p_vy :: 'n
  p_fx :: 'n
  p_fy :: 'n
  p_type :: string
  p_size :: 'n
  p_options :: "'n options_of"
  p_friction :: 'n
  p_bounceDecay :: 'n
  p_maxAcceleration :: 'n
  p_maxVelocity :: 'n
  p_collisionCooldown :: nat

type_synonym options = "real options_of"
type_synonym particle = "real particle_of"

record force =
  f_fx :: real
  f_fy :: real

text \<open>One \<open>{type, count}\<close> entry of a rule's \<open>createParticles\<close> list.\<close>

record creation =
  cr_type :: string
  cr_count :: nat

record rule =
  closeForce :: real
  farForce :: real
  threshold :: real
  destroyOriginals :: bool
  createParticles :: "creation list"

text \<open>
  The rules object \<open>rules[type1][type2]\<close>: a row per source type, an entry per target
  type; either may be missing.
\<close>

type_synonym rules_table = "string \<rightharpoonup> (string \<rightharpoonup> rule)"

text \<open>\<open>rules[type1] && rules[type1][type2]\<close>: \<open>None\<close> when the row or the entry is missing.\<close>

definition rule_at :: "rules_table \<Rightarrow> string \<Rightarrow> string \<Rightarrow> rule option" where
  "rule_at rules type1 type2 = (case rules type1 of None \<Rightarrow> None | Some row \<Rightarrow> row type2)"

text \<open>
  The constructor; \<open>ident\<close> is the value of the module counter \<open>nextParticleId\<close>.
  The fields \<open>colors\<close> and \<open>types\<close> are only read by the renderer and are left out.
\<close>

definition Particle :: "nat \<Rightarrow> real \<Rightarrow> real \<Rightarrow> string \<Rightarrow> options \<Rightarrow> particle" where
  "Particle ident x y t opts =
     \<lparr>p_id = ident, p_x = x, p_y = y, p_vx = 0, p_vy = 0, p_fx = 0, p_fy = 0,
      p_type = t, p_size = js_or (opt_size opts) 2, p_options = opts,
      p_friction = js_or (opt_friction opts) 0.9,
      p_bounceDecay = js_or (opt_bounceDecay opts) 0.8,
      p_maxAcceleration = js_or (opt_maxAcceleration opts) 0.5,
      p_maxVelocity = js_or (opt_maxVelocity opts) 8.0,
      p_collisionCooldown = 0\<rparr>"

text \<open>\<open>reset\<close> keeps the id and rewrites every other field.\<close>

definition reset :: "particle \<Rightarrow> real \<Rightarrow> real \<Rightarrow> string \<Rightarrow> options \<Rightarrow> particle" where
  "reset p x y t opts =
     p\<lparr>p_x := x, p_y := y, p_vx := 0, p_vy := 0, p_fx := 0, p_fy := 0,
       p_type := t, p_size := js_or (opt_size opts) 2, p_options := opts,
       p_friction := js_or (opt_friction opts) 0.9,
       p_bounceDecay := js_or (opt_bounceDecay opts) 0.8,
       p_maxAcceleration := js_or (opt_maxAcceleration opts) 0.5,
       p_maxVelocity := js_or (opt_maxVelocity opts) 8.0,
       p_collisionCooldown := 0\<rparr>"

text \<open>
  \<open>onCollision\<close> returns at once when either particle is cooling down.  Otherwise
  it reads the free identifiers \<open>collisionsThisFrame\<close>, \<open>particles\<close>, \<open>rules\<close>,
  \<open>particlesToRemove\<close> and \<open>particlesToAdd\<close>, each behind a \<open>typeof\<close> test.  Every
  file of the repository is an ES module and none defines these names as globals, so
  the tests on \<open>collisionsThisFrame\<close> and \<open>particles\<close> are skipped and the function
  returns at \<open>typeof rules === "undefined"\<close>: on every path it changes neither
  particle and no list.
\<close>

definition onCollision :: "particle \<Rightarrow> particle \<Rightarrow> particle \<times> particle" where
  "onCollision this other =
     (if p_collisionCooldown this > 0 \<or> p_collisionCooldown other > 0 then (this, other)
      else (this, other))"

text \<open>The rule used when \<open>rules[this.type][otherParticle.type]\<close> is missing.\<close>

definition neutral_rule :: rule where
  "neutral_rule =
     \<lparr>closeForce = 0, farForce = 0, threshold = 30, destroyOriginals = False,
      createParticles = []\<rparr>"

text \<open>
  \<open>calculateForce\<close>.  \<open>rules[this.type][otherParticle.type]\<close> reads a property of
  \<open>rules[this.type]\<close>: when that row is \<open>undefined\<close> the read throws a TypeError.
  Within collision distance the source calls \<open>onCollision\<close> before it computes the
  collision force; the call has no effect (above) and \<open>calculateForce\<close> is a function
  of its arguments.  It also stores \<open>rules\<close> in \<open>this.rules\<close> and \<open>this.prevRules\<close>,
  which nothing reads.
\<close>

definition calculateForce ::
  "particle \<Rightarrow> particle \<Rightarrow> rules_table \<Rightarrow> options \<Rightarrow> js_error + force" where
  "calculateForce this otherParticle rules opts =
     (let dx = p_x otherParticle - p_x this;
          dy = p_y otherParticle - p_y this;
          distance = sqrt (dx * dx + dy * dy);
          maxDistance = js_or (opt_maxDistance opts) 80;
          forceMultiplier = js_or (opt_forceMultiplier opts) 0.1
      in if distance = 0 \<or> distance > maxDistance then Inr \<lparr>f_fx = 0, f_fy = 0\<rparr>
         else (case rules (p_type this) of
             None \<Rightarrow> Inl TypeError
           | Some row \<Rightarrow>
              (let r = (case row (p_type otherParticle) of None \<Rightarrow> neutral_rule | Some r' \<Rightarrow> r');
                   nx = dx / distance;
                   ny = dy / distance;
                   falloff = 1 - distance / maxDistance;
                   frc = (if distance < threshold r then closeForce r else farForce r);
                   collisionDistanceRatio = js_or (opt_collisionDistanceRatio opts) 1.0;
                   collisionDistance = (p_size this + p_size otherParticle) * collisionDistanceRatio;
                   collisionForce =
                     (if distance < collisionDistance
                      then - 3 * (1 - distance / collisionDistance) else 0);
                   finalForce = (frc * falloff + collisionForce) * forceMultiplier
               in Inr \<lparr>f_fx = finalForce * nx, f_fy = finalForce * ny\<rparr>)))"

text \<open>The quantities the statements about \<open>calculateForce\<close> speak of.\<close>

definition pair_distance :: "particle \<Rightarrow> particle \<Rightarrow> real" where
  "pair_distance this otherParticle =
     sqrt ((p_x otherParticle - p_x this) * (p_x otherParticle - p_x this)
         + (p_y otherParticle - p_y this) * (p_y otherParticle - p_y this))"


definition force_collisionDistance :: "particle \<Rightarrow> particle \<Rightarrow> options \<Rightarrow> real" where
  "force_collisionDistance this otherParticle opts =
     (p_size this + p_size otherParticle) * js_or (opt_collisionDistanceRatio opts) 1.0"


definition resetForces :: "particle \<Rightarrow> particle" where
  "resetForces p = p\<lparr>p_fx := 0, p_fy := 0\<rparr>"

definition applyForce :: "particle \<Rightarrow> force \<Rightarrow> particle" where
  "applyForce p f = p\<lparr>p_fx := p_fx p + f_fx f, p_fy := p_fy p + f_fy f\<rparr>"

definition calculateEdgeRepulsion :: "particle \<Rightarrow> real \<Rightarrow> real \<Rightarrow> options \<Rightarrow> force" where
  "calculateEdgeRepulsion this canvasWidth canvasHeight opts =
     (let minDistance = js_or (opt_minDistanceToEdges opts) 50;
          repulsionForce = js_or (opt_edgeRepulsionForce opts) 0.3;
          distToLeft = p_x this;
          distToRight = canvasWidth - p_x this;
          distToTop = p_y this;
          distToBottom = canvasHeight - p_y this;
          fx1 = (if distToLeft < minDistance
                 then repulsionForce * (1 - distToLeft / minDistance) else 0);
          fx2 = (if distToRight < minDistance
                 then fx1 - repulsionForce * (1 - distToRight / minDistance) else fx1);
          fy1 = (if distToTop < minDistance
                 then repulsionForce * (1 - distToTop / minDistance) else 0);
          fy2 = (if distToBottom < minDistance
                 then fy1 - repulsionForce * (1 - distToBottom / minDistance) else fy1)
      in \<lparr>f_fx = fx2, f_fy = fy2\<rparr>)"

text \<open>
  The two clamps divide the limit by the magnitude.  The magnitude can only be zero
  there when the limit is negative; JavaScript then computes \<open>0 * -Infinity = NaN\<close>,
  which the model reports as \<open>None\<close>.
\<close>

definition clampAcceleration :: "particle \<Rightarrow> particle option" where
  "clampAcceleration p =
     (let accelerationMagnitude = sqrt (p_fx p * p_fx p + p_fy p * p_fy p)
      in if accelerationMagnitude > p_maxAcceleration p
         then (if accelerationMagnitude = 0 then None
               else (let scale = p_maxAcceleration p / accelerationMagnitude
                     in Some (p\<lparr>p_fx := p_fx p * scale, p_fy := p_fy p * scale\<rparr>)))
         else Some p)"

definition clampVelocity :: "particle \<Rightarrow> particle option" where
  "clampVelocity p =
     (let velocityMagnitude = sqrt (p_vx p * p_vx p + p_vy p * p_vy p)
      in if velocityMagnitude > p_maxVelocity p
         then (if velocityMagnitude = 0 then None
               else (let scale = p_maxVelocity p / velocityMagnitude
                     in Some (p\<lparr>p_vx := p_vx p * scale, p_vy := p_vy p * scale\<rparr>)))
         else Some p)"


text \<open>The steps of \<open>update\<close>, in the order of the source.\<close>

definition tick_cooldown :: "'n particle_of \<Rightarrow> 'n particle_of" where
  "tick_cooldown p =
     (if p_collisionCooldown p > 0 then p\<lparr>p_collisionCooldown := p_collisionCooldown p - 1\<rparr>
      else p)"

definition add_forces :: "particle \<Rightarrow> particle" where
  "add_forces p = p\<lparr>p_vx := p_vx p + p_fx p, p_vy := p_vy p + p_fy p\<rparr>"

definition apply_friction :: "particle \<Rightarrow> particle" where
  "apply_friction p = p\<lparr>p_vx := p_vx p * p_friction p, p_vy := p_vy p * p_friction p\<rparr>"

definition move :: "particle \<Rightarrow> particle" where
  "move p = p\<lparr>p_x := p_x p + p_vx p, p_y := p_y p + p_vy p\<rparr>"

definition update :: "real \<Rightarrow> real \<Rightarrow> particle \<Rightarrow> particle option" where
  "update canvasWidth canvasHeight p =
     (case (if opt_enableAccelerationClamp (p_options p)
            then clampAcceleration (tick_cooldown p) else Some (tick_cooldown p)) of
        None \<Rightarrow> None
      | Some p1 \<Rightarrow>
         (case (if opt_enableVelocityClamp (p_options p1)
                then clampVelocity (add_forces p1) else Some (add_forces p1)) of
            None \<Rightarrow> None
          | Some p2 \<Rightarrow> Some (move (apply_friction p2))))"

text \<open>The default options of \<open>Config.js\<close>.\<close>

definition defaultOptions :: options where
  "defaultOptions =
     \<lparr>opt_size = Some 2, opt_friction = Some 0.9, opt_bounceDecay = Some 0.8,
      opt_maxAcceleration = Some 0.5, opt_maxVelocity = Some 8.0,
      opt_maxDistance = Some 80, opt_collisionDistanceRatio = Some 2.0,
      opt_forceMultiplier = Some 0.1, opt_minDistanceToEdges = Some 50,
      opt_edgeRepulsionForce = Some 0.9, opt_enableVelocityClamp = True,
      opt_enableAccelerationClamp = True, opt_useQuadtree = True,
      opt_quadtreeCapacity = 8\<rparr>"

section \<open>Quadtree.js\<close>

record 'n rectangle_of =
  r_x :: 'n
  r_y :: 'n
  r_width :: 'n
  r_height :: 'n

type_synonym rectangle = "real rectangle_of"

text \<open>
  \<open>Rectangle.contains(particle)\<close> reads \<open>particle.x\<close> and \<open>particle.y\<close>; the model
  is given that point.
\<close>

definition contains :: "rectangle \<Rightarrow> real \<times> real \<Rightarrow> bool" where
  "contains r pt = (case pt of (px, py) \<Rightarrow>
     px \<ge> r_x r \<and> px < r_x r + r_width r \<and> py \<ge> r_y r \<and> py < r_y r + r_height r)"

text \<open>
  A quadtree node.  The source keeps a flag \<open>divided\<close> and four children that are
  \<open>null\<close> until \<open>subdivide\<close> fills them all at once: a node is either a \<open>Leaf\<close> or
  \<open>Divided\<close>.  The node stores references to particles; \<open>'a\<close> is the type of a
  reference and \<open>pos\<close> reads the position \<open>(x, y)\<close> of the particle it refers to.
  The constructor is always given its capacity (its default \<open>4\<close> stands in for an
  argument that is \<open>undefined\<close>).  \<open>insert\<close> is named \<open>qt_insert\<close> here.
\<close>

datatype ('n, 'a) quadtree_of =
    Leaf (boundary: "'n rectangle_of") (capacity: nat) (particles: "'a list")
  | Divided (boundary: "'n rectangle_of") (capacity: nat) (particles: "'a list")
      (northeast: "('n, 'a) quadtree_of") (northwest: "('n, 'a) quadtree_of")
      (southeast: "('n, 'a) quadtree_of") (southwest: "('n, 'a) quadtree_of")

type_synonym 'a quadtree = "(real, 'a) quadtree_of"

definition Quadtree :: "'n rectangle_of \<Rightarrow> nat \<Rightarrow> ('n, 'a) quadtree_of" where
  "Quadtree b c = Leaf b c []"

definition divided :: "('n, 'a) quadtree_of \<Rightarrow> bool" where
  "divided t = (case t of Leaf _ _ _ \<Rightarrow> False | Divided _ _ _ _ _ _ _ \<Rightarrow> True)"

definition subdivide :: "'a quadtree \<Rightarrow> 'a quadtree" where
  "subdivide t =
     (let x = r_x (boundary t);
          y = r_y (boundary t);
          w = r_width (boundary t) / 2;
          h = r_height (boundary t) / 2;
          ne = \<lparr>r_x = x + w, r_y = y, r_width = w, r_height = h\<rparr>;
          nw = \<lparr>r_x = x, r_y = y, r_width = w, r_height = h\<rparr>;
          se = \<lparr>r_x = x + w, r_y = y + h, r_width = w, r_height = h\<rparr>;
          sw = \<lparr>r_x = x, r_y = y + h, r_width = w, r_height = h\<rparr>
      in Divided (boundary t) (capacity t) (particles t)
           (Quadtree ne (capacity t)) (Quadtree nw (capacity t))
           (Quadtree se (capacity t)) (Quadtree sw (capacity t)))"

text \<open>\<open>this.particles.push(particle)\<close>.\<close>

definition push_particle :: "('n, 'a) quadtree_of \<Rightarrow> 'a \<Rightarrow> ('n, 'a) quadtree_of" where
  "push_particle t p = (case t of
       Leaf b c ps \<Rightarrow> Leaf b c (ps @ [p])
     | Divided b c ps ne nw se sw \<Rightarrow> Divided b c (ps @ [p]) ne nw se sw)"

text \<open>
  \<open>insert\<close> returns its boolean and the node as it has become.  A full node hands
  the particle to its children and keeps its own particles: nothing is moved on
  subdivision.  The recursion is not structural (the children may be fresh), so the
  function is partial: \<open>None\<close> is a recursion that never ends, which JavaScript
  reports as a RangeError when the call stack is exhausted.  The \<open>Leaf\<close> case of the
  inner \<open>case\<close> is never taken, since \<open>subdivide\<close> yields a \<open>Divided\<close> node.
\<close>

partial_function (option) qt_insert ::
  "('a \<Rightarrow> real \<times> real) \<Rightarrow> 'a quadtree \<Rightarrow> 'a \<Rightarrow> (bool \<times> 'a quadtree) option" where
  "qt_insert pos t p =
     (if \<not> contains (boundary t) (pos p) then Some (False, t)
      else if length (particles t) < capacity t then Some (True, push_particle t p)
      else (case (if divided t then t else subdivide t) of
          Leaf b c ps \<Rightarrow> None
        | Divided b c ps ne nw se sw \<Rightarrow>
            Option.bind (qt_insert pos ne p) (\<lambda>(r1, ne').
              if r1 then Some (True, Divided b c ps ne' nw se sw)
              else Option.bind (qt_insert pos nw p) (\<lambda>(r2, nw').
                if r2 then Some (True, Divided b c ps ne' nw' se sw)
                else Option.bind (qt_insert pos se p) (\<lambda>(r3, se').
                  if r3 then Some (True, Divided b c ps ne' nw' se' sw)
                  else Option.bind (qt_insert pos sw p) (\<lambda>(r4, sw').
                    Some (r4, Divided b c ps ne' nw' se' sw')))))))"


text \<open>\<open>particles.forEach((particle) => quadtree.insert(particle))\<close>: the booleans are dropped.\<close>

fun insertAll :: "('a \<Rightarrow> real \<times> real) \<Rightarrow> 'a quadtree \<Rightarrow> 'a list \<Rightarrow> 'a quadtree option" where
  "insertAll pos t [] = Some t"
| "insertAll pos t (p # ps) = Option.bind (qt_insert pos t p) (\<lambda>(r, t'). insertAll pos t' ps)"

text \<open>
  \<open>queryCircle\<close>: the test on the closest point of the boundary, the test of a
  stored particle, and the traversal.
\<close>

definition circle_misses :: "rectangle \<Rightarrow> real \<Rightarrow> real \<Rightarrow> real \<Rightarrow> bool" where
  "circle_misses b x y radius =
     (let closestX = max (r_x b) (min x (r_x b + r_width b));
          closestY = max (r_y b) (min y (r_y b + r_height b));
          dx = x - closestX;
          dy = y - closestY;
          distanceSquared = dx * dx + dy * dy
      in distanceSquared > radius * radius)"

definition in_circle :: "('a \<Rightarrow> real \<times> real) \<Rightarrow> real \<Rightarrow> real \<Rightarrow> real \<Rightarrow> 'a \<Rightarrow> bool" where
  "in_circle pos x y radius p =
     (let particleDx = fst (pos p) - x;
          particleDy = snd (pos p) - y;
          particleDistanceSquared = particleDx * particleDx + particleDy * particleDy
      in particleDistanceSquared \<le> radius * radius)"

fun queryCircle ::
  "('a \<Rightarrow> real \<times> real) \<Rightarrow> 'a quadtree \<Rightarrow> real \<Rightarrow> real \<Rightarrow> real \<Rightarrow> 'a list \<Rightarrow> 'a list" where
  "queryCircle pos (Leaf b c ps) x y radius found =
     (if circle_misses b x y radius then found
      else found @ filter (in_circle pos x y radius) ps)"
| "queryCircle pos (Divided b c ps ne nw se sw) x y radius found =
     (if circle_misses b x y radius then found
      else queryCircle pos sw x y radius
             (queryCircle pos se x y radius
               (queryCircle pos nw x y radius
                 (queryCircle pos ne x y radius
                   (found @ filter (in_circle pos x y radius) ps)))))"


text \<open>
  What the statements about the tree speak of: the references stored below a node,
  that each lies in the boundary of every node above it, and that the children of a
  divided node are its four quadrants with its capacity.
\<close>

fun elems :: "('n, 'a) quadtree_of \<Rightarrow> 'a set" where
  "elems (Leaf b c ps) = set ps"
| "elems (Divided b c ps ne nw se sw) = set ps \<union> elems ne \<union> elems nw \<union> elems se \<union> elems sw"

fun inside :: "('a \<Rightarrow> real \<times> real) \<Rightarrow> 'a quadtree \<Rightarrow> bool" where
  "inside pos (Leaf b c ps) = (\<forall>p\<in>set ps. contains b (pos p))"
| "inside pos (Divided b c ps ne nw se sw) =
     ((\<forall>p\<in>set ps \<union> elems ne \<union> elems nw \<union> elems se \<union> elems sw. contains b (pos p))
      \<and> inside pos ne \<and> inside pos nw \<and> inside pos se \<and> inside pos sw)"

definition quadrant :: "rectangle \<Rightarrow> bool \<Rightarrow> bool \<Rightarrow> rectangle" where
  "quadrant b east south =
     \<lparr>r_x = (if east then r_x b + r_width b / 2 else r_x b),
      r_y = (if south then r_y b + r_height b / 2 else r_y b),
      r_width = r_width b / 2, r_height = r_height b / 2\<rparr>"

fun quadrants_ok :: "'a quadtree \<Rightarrow> bool" where
  "quadrants_ok (Leaf b c ps) = True"
| "quadrants_ok (Divided b c ps ne nw se sw) =
     (boundary ne = quadrant b True False \<and> boundary nw = quadrant b False False
      \<and> boundary se = quadrant b True True \<and> boundary sw = quadrant b False True
      \<and> capacity ne = c \<and> capacity nw = c \<and> capacity se = c \<and> capacity sw = c
      \<and> quadrants_ok ne \<and> quadrants_ok nw \<and> quadrants_ok se \<and> quadrants_ok sw)"

text \<open>What one \<open>insert\<close> that returns \<open>res\<close> has done to the node.\<close>

definition insert_post ::
  "('a \<Rightarrow> real \<times> real) \<Rightarrow> 'a quadtree \<Rightarrow> 'a \<Rightarrow> bool \<times> 'a quadtree \<Rightarrow> bool" where
  "insert_post pos t p res =
     (boundary (snd res) = boundary t \<and> capacity (snd res) = capacity t
      \<and> elems (snd res) = (if fst res then Set.insert p (elems t) else elems t)
      \<and> (fst res \<longrightarrow> contains (boundary t) (pos p))
      \<and> (inside pos t \<longrightarrow> inside pos (snd res))
      \<and> (quadrants_ok t \<longrightarrow> quadrants_ok (snd res) \<and> fst res = contains (boundary t) (pos p)))"

definition child_rel ::
  "('a \<Rightarrow> real \<times> real) \<Rightarrow> 'a \<Rightarrow> 'a quadtree \<Rightarrow> 'a quadtree \<Rightarrow> bool \<Rightarrow> bool" where
  "child_rel pos p t t' added =
     (boundary t' = boundary t \<and> capacity t' = capacity t
      \<and> elems t' = (if added then Set.insert p (elems t) else elems t)
      \<and> (added \<longrightarrow> contains (boundary t) (pos p))
      \<and> (inside pos t \<longrightarrow> inside pos t')
      \<and> (quadrants_ok t \<longrightarrow> quadrants_ok t'))"

section \<open>RuleManager.js\<close>

text \<open>
  A parsed JSON value.  \<open>JSON.parse\<close> is a function of the JavaScript library: the
  model takes it as a parameter \<open>parse\<close>, which returns the value or the SyntaxError.
\<close>

datatype json =
    JNull | JBool bool | JNum real | JStr string | JArr "json list" | JObj "(string \<times> json) list"

text \<open>
  Reading a property: of \<open>null\<close> it throws, of an object it gives the value or
  \<open>undefined\<close>, and the other values have no property \<open>rules\<close> or \<open>types\<close>.
\<close>

definition js_get :: "json \<Rightarrow> string \<Rightarrow> js_error + json option" where
  "js_get v k = (case v of
      JNull \<Rightarrow> Inl TypeError
    | JObj kvs \<Rightarrow> Inr (map_of kvs k)
    | _ \<Rightarrow> Inr None)"

definition truthy :: "json option \<Rightarrow> bool" where
  "truthy v = (case v of
      None \<Rightarrow> False
    | Some JNull \<Rightarrow> False
    | Some (JBool b) \<Rightarrow> b
    | Some (JNum n) \<Rightarrow> n \<noteq> 0
    | Some (JStr s) \<Rightarrow> s \<noteq> []
    | Some (JArr _) \<Rightarrow> True
    | Some (JObj _) \<Rightarrow> True)"

text \<open>
  The manager.  Its history functions only copy the rule table, whose type \<open>'r\<close> is a
  parameter: the typed table \<open>rules_table\<close> for the rules the simulation uses, a JSON
  value for \<open>importRules\<close>, which stores whatever the text holds.  \<open>Date.now()\<close> is the
  argument \<open>now\<close>.
\<close>

record 'r history_entry =
  h_label :: string
  h_rules :: 'r
  h_timestamp :: nat

record 'r rule_manager =
  rm_rules :: 'r
  rm_initialized :: bool
  rm_ruleHistory :: "'r history_entry list"
  rm_currentHistoryIndex :: int
  rm_maxHistorySize :: nat

definition RuleManager :: "'r \<Rightarrow> 'r rule_manager" where
  "RuleManager empty_object =
     \<lparr>rm_rules = empty_object, rm_initialized = False, rm_ruleHistory = [],
      rm_currentHistoryIndex = - 1, rm_maxHistorySize = 50\<rparr>"

text \<open>
  \<open>JSON.parse(JSON.stringify(rules))\<close>: on a table of finite numbers, booleans, strings
  and lists the round trip gives an equal value.
\<close>

definition deep_copy :: "'r \<Rightarrow> 'r" where
  "deep_copy r = r"

text \<open>\<open>xs.slice(0, k)\<close>; a negative \<open>k\<close> counts from the end.\<close>

definition slice0 :: "'a list \<Rightarrow> int \<Rightarrow> 'a list" where
  "slice0 xs k = (if k < 0 then take (nat (int (length xs) + k)) xs else take (nat k) xs)"

definition saveToHistory :: "string \<Rightarrow> nat \<Rightarrow> 'r rule_manager \<Rightarrow> 'r rule_manager" where
  "saveToHistory label now m =
     (let h1 = (if rm_currentHistoryIndex m < int (length (rm_ruleHistory m)) - 1
                then slice0 (rm_ruleHistory m) (rm_currentHistoryIndex m + 1)
                else rm_ruleHistory m);
          h2 = h1 @ [\<lparr>h_label = label, h_rules = deep_copy (rm_rules m), h_timestamp = now\<rparr>]
      in if length h2 > rm_maxHistorySize m
         then m\<lparr>rm_ruleHistory := tl h2\<rparr>
         else m\<lparr>rm_ruleHistory := h2, rm_currentHistoryIndex := rm_currentHistoryIndex m + 1\<rparr>)"

text \<open>\<open>ruleHistory[i]\<close>: \<open>undefined\<close> outside the array, and \<open>undefined.rules\<close> throws.\<close>

definition history_at :: "'a list \<Rightarrow> int \<Rightarrow> 'a option" where
  "history_at xs i = (if 0 \<le> i \<and> i < int (length xs) then Some (xs ! nat i) else None)"

definition undo :: "'r rule_manager \<Rightarrow> js_error + (bool \<times> 'r rule_manager)" where
  "undo m =
     (if rm_currentHistoryIndex m > 0
      then (case history_at (rm_ruleHistory m) (rm_currentHistoryIndex m - 1) of
              None \<Rightarrow> Inl TypeError
            | Some historyEntry \<Rightarrow>
                Inr (True, m\<lparr>rm_currentHistoryIndex := rm_currentHistoryIndex m - 1,
                              rm_rules := deep_copy (h_rules historyEntry)\<rparr>))
      else Inr (False, m))"

definition redo :: "'r rule_manager \<Rightarrow> js_error + (bool \<times> 'r rule_manager)" where
  "redo m =
     (if rm_currentHistoryIndex m < int (length (rm_ruleHistory m)) - 1
      then (case history_at (rm_ruleHistory m) (rm_currentHistoryIndex m + 1) of
              None \<Rightarrow> Inl TypeError
            | Some historyEntry \<Rightarrow>
                Inr (True, m\<lparr>rm_currentHistoryIndex := rm_currentHistoryIndex m + 1,
                              rm_rules := deep_copy (h_rules historyEntry)\<rparr>))
      else Inr (False, m))"

text \<open>The rule that \<open>initialize\<close> writes for every ordered pair of types.\<close>

definition full_rule :: rule where
  "full_rule = \<lparr>closeForce = 0, farForce = 0, threshold = 30, destroyOriginals = False,
      createParticles = []\<rparr>"

definition initialize :: "string list \<Rightarrow> nat \<Rightarrow> rules_table rule_manager \<Rightarrow> rules_table rule_manager" where
  "initialize types now m =
     saveToHistory ''Initial rules'' now
       (m\<lparr>rm_rules := (\<lambda>type1. if type1 \<in> set types
                          then Some (\<lambda>type2. if type2 \<in> set types then Some full_rule else None)
                          else None),
          rm_initialized := True\<rparr>)"

definition setRules :: "'r \<Rightarrow> string \<Rightarrow> nat \<Rightarrow> 'r rule_manager \<Rightarrow> 'r rule_manager" where
  "setRules newRules historyLabel now m =
     saveToHistory historyLabel now (m\<lparr>rm_rules := deep_copy newRules\<rparr>)"

definition setForceRule ::
  "string \<Rightarrow> string \<Rightarrow> real \<Rightarrow> real \<Rightarrow> real \<Rightarrow> rules_table rule_manager \<Rightarrow> rules_table rule_manager" where
  "setForceRule type1 type2 cf ff th m =
     (case rm_rules m type1 of
        None \<Rightarrow> m
      | Some row \<Rightarrow>
         (case row type2 of
            None \<Rightarrow> m
          | Some r \<Rightarrow>
              m\<lparr>rm_rules := (rm_rules m)(type1 \<mapsto>
                    row(type2 \<mapsto> r\<lparr>closeForce := cf, farForce := ff, threshold := th\<rparr>))\<rparr>))"

text \<open>
  \<open>this.types = data.types\<close>: the class declares \<open>types\<close> with a getter and no
  setter, and class bodies are strict code, so the assignment throws a TypeError
  and changes nothing.
\<close>

definition assign_types ::
  "json rule_manager \<Rightarrow> json option \<Rightarrow> (js_error \<times> json rule_manager) + json rule_manager" where
  "assign_types m v = Inl (TypeError, m)"

definition json_or_null :: "json option \<Rightarrow> json" where
  "json_or_null v = (case v of None \<Rightarrow> JNull | Some j \<Rightarrow> j)"

text \<open>
  The \<open>try\<close> block of \<open>importRules\<close>; an error carries the manager as it is when the
  error is thrown, which the \<open>catch\<close> block keeps.
\<close>

definition importRules_try ::
  "(string \<Rightarrow> js_error + json) \<Rightarrow> string \<Rightarrow> nat \<Rightarrow> json rule_manager
     \<Rightarrow> (js_error \<times> json rule_manager) + (bool \<times> json rule_manager)" where
  "importRules_try parse jsonString now m =
     (case parse jsonString of
        Inl e \<Rightarrow> Inl (e, m)
      | Inr data \<Rightarrow>
         (case js_get data ''rules'' of
            Inl e \<Rightarrow> Inl (e, m)
          | Inr data_rules \<Rightarrow>
             if \<not> truthy data_rules then Inr (False, m)
             else (case js_get data ''types'' of
                Inl e \<Rightarrow> Inl (e, m)
              | Inr data_types \<Rightarrow>
                 if \<not> truthy data_types then Inr (False, m)
                 else (case assign_types m data_types of
                    Inl em \<Rightarrow> Inl em
                  | Inr m1 \<Rightarrow>
                     Inr (True, saveToHistory ''Rules imported'' now
                                  (m1\<lparr>rm_rules := json_or_null data_rules\<rparr>))))))"

definition importRules ::
  "(string \<Rightarrow> js_error + json) \<Rightarrow> string \<Rightarrow> nat \<Rightarrow> json rule_manager \<Rightarrow> bool \<times> json rule_manager" where
  "importRules parse jsonString now m =
     (case importRules_try parse jsonString now m of
        Inl (e, m') \<Rightarrow> (False, m')
      | Inr res \<Rightarrow> res)"

text \<open>
  What the statement about \<open>importRules\<close> speaks of: the value the text holds under
  \<open>rules\<close>, and a text that does not parse or lacks \<open>rules\<close> or \<open>types\<close>.
\<close>

definition imported_rules :: "(string \<Rightarrow> js_error + json) \<Rightarrow> string \<Rightarrow> json option" where
  "imported_rules parse jsonString =
     (case parse jsonString of
        Inl e \<Rightarrow> None
      | Inr data \<Rightarrow> (case js_get data ''rules'' of Inl e \<Rightarrow> None | Inr v \<Rightarrow> v))"

definition malformed :: "(string \<Rightarrow> js_error + json) \<Rightarrow> string \<Rightarrow> bool" where
  "malformed parse jsonString =
     (case parse jsonString of
        Inl e \<Rightarrow> True
      | Inr data \<Rightarrow>
         (case js_get data ''rules'' of
            Inl e \<Rightarrow> True
          | Inr r \<Rightarrow> r = None \<or> (case js_get data ''types'' of Inl e \<Rightarrow> True | Inr t \<Rightarrow> t = None)))"

section \<open>ParticlePool.js\<close>

text \<open>The constants of \<open>Config.js\<close> that the pool and the engine read.\<close>

definition PARTICLE_COUNT_PER_TYPE :: nat where
  "PARTICLE_COUNT_PER_TYPE = 200"

definition MAX_TOTAL_PARTICLES :: nat where
  "MAX_TOTAL_PARTICLES = 7000"

definition MIN_POOL_SIZE :: nat where
  "MIN_POOL_SIZE = 5000"

definition MAX_COLLISIONS_PER_FRAME :: nat where
  "MAX_COLLISIONS_PER_FRAME = 50"

definition COLLISION_COOLDOWN_FRAMES :: nat where
  "COLLISION_COOLDOWN_FRAMES = 60"

record pool_stats =
  totalCreated :: nat
  totalRecycled :: nat
  peakUsage :: int
  currentActive :: int

record particle_pool =
  pool :: "particle list"
  poolSize :: nat
  maxPoolSize :: nat
  pool_initialized :: bool
  stats :: pool_stats

definition ParticlePool :: particle_pool where
  "ParticlePool =
     \<lparr>pool = [], poolSize = 0, maxPoolSize = MAX_TOTAL_PARTICLES + MIN_POOL_SIZE,
      pool_initialized = False,
      stats = \<lparr>totalCreated = 0, totalRecycled = 0, peakUsage = 0, currentActive = 0\<rparr>\<rparr>"

text \<open>
  \<open>PARTICLE_CONFIG.types[0]\<close>, where \<open>types\<close> is the list of enabled types of the
  registry (a parameter of the model).  On an empty list the read gives \<open>undefined\<close>,
  which as a key of the rules object is the string \<open>undefined\<close>.
\<close>

definition first_type :: "string list \<Rightarrow> string" where
  "first_type types = (case types of [] \<Rightarrow> ''undefined'' | t # _ \<Rightarrow> t)"

text \<open>
  \<open>initialize(initialSize)\<close>; \<open>nextParticleId\<close> is the counter of \<open>Particle.js\<close>, which
  every constructed particle advances.  The result is the pool and the counter.
\<close>

definition pool_initialize ::
  "nat option \<Rightarrow> string list \<Rightarrow> nat \<Rightarrow> particle_pool \<Rightarrow> particle_pool \<times> nat" where
  "pool_initialize initialSize types nextParticleId pp =
     (if pool_initialized pp then (pp, nextParticleId)
      else (let totalParticles = length types * PARTICLE_COUNT_PER_TYPE;
                poolBuffer = max MIN_POOL_SIZE totalParticles;
                size = (case initialSize of
                          None \<Rightarrow> totalParticles + poolBuffer
                        | Some n \<Rightarrow> if n = 0 then totalParticles + poolBuffer else n)
            in (pp\<lparr>poolSize := size,
                   pool := map (\<lambda>i. Particle (nextParticleId + i) 0 0 (first_type types) defaultOptions)
                             [0..<size],
                   pool_initialized := True\<rparr>,
                nextParticleId + size)))"

text \<open>\<open>getParticle\<close> returns the particle, the pool and the counter.\<close>

definition getParticle ::
  "real \<Rightarrow> real \<Rightarrow> string \<Rightarrow> options \<Rightarrow> nat \<Rightarrow> particle_pool \<Rightarrow> particle \<times> particle_pool \<times> nat" where
  "getParticle x y t opts nextParticleId pp =
     (if \<not> pool_initialized pp then (Particle nextParticleId x y t opts, pp, nextParticleId + 1)
      else (let (particle, pp1, next1) =
                  (if length (pool pp) = 0
                   then (Particle nextParticleId x y t opts,
                         pp\<lparr>stats := (stats pp)\<lparr>totalCreated := totalCreated (stats pp) + 1\<rparr>\<rparr>,
                         nextParticleId + 1)
                   else (reset (last (pool pp)) x y t opts,
                         pp\<lparr>pool := butlast (pool pp),
                            stats := (stats pp)\<lparr>totalRecycled := totalRecycled (stats pp) + 1\<rparr>\<rparr>,
                         nextParticleId));
                active = currentActive (stats pp1) + 1
            in (particle,
                pp1\<lparr>stats := (stats pp1)\<lparr>currentActive := active,
                                           peakUsage := max (peakUsage (stats pp1)) active\<rparr>\<rparr>,
                next1)))"

definition returnParticle :: "string list \<Rightarrow> particle \<Rightarrow> particle_pool \<Rightarrow> particle_pool" where
  "returnParticle types particle pp =
     (if \<not> pool_initialized pp then pp
      else if length (pool pp) \<ge> maxPoolSize pp then pp
      else pp\<lparr>pool := pool pp @ [reset particle 0 0 (first_type types) defaultOptions],
              stats := (stats pp)\<lparr>currentActive := currentActive (stats pp) - 1\<rparr>\<rparr>)"

text \<open>The test of \<open>validate\<close> that reports a negative count of active particles.\<close>

definition negative_active_count :: "particle_pool \<Rightarrow> bool" where
  "negative_active_count pp = (currentActive (stats pp) < 0)"

section \<open>PhysicsEngine.js\<close>

text \<open>
  The engine works on the particle array by reference.  In the model a reference to
  a particle is its index in \<open>e_particles\<close>, so the array holds pairwise distinct
  objects, and every function below is applied to indices inside the array.
  \<open>Math.random()\<close> is a parameter \<open>rnd\<close>: \<open>rnd k\<close> is the value of the \<open>k\<close>-th call, and
  the engine state counts the calls made.  The timing statistics read the clock and
  are left out, as are the fields \<open>colors\<close> and \<open>types\<close> of a spawn request, which
  only the renderer reads.
\<close>

record spawn =
  s_x :: real
  s_y :: real
  s_type :: string
  s_options :: options
  s_initialVx :: real
  s_initialVy :: real

record update_result =
  particlesToAdd :: "spawn list"
  particlesToRemove :: "nat list"
  collisionsThisFrame :: nat

record engine =
  e_quadtree :: "nat quadtree option"
  e_particles :: "particle list"
  e_rules :: rules_table
  e_options :: options
  e_collisionsThisFrame :: nat
  e_particlesToAdd :: "spawn list"
  e_particlesToRemove :: "nat list"
  e_forceCalculations :: nat
  e_quadtreeQueries :: nat
  e_collisionsProcessed :: nat
  e_canvasWidth :: real
  e_canvasHeight :: real
  e_randoms :: nat

definition position_of :: "particle list \<Rightarrow> nat \<Rightarrow> real \<times> real" where
  "position_of ps i = (p_x (ps ! i), p_y (ps ! i))"

text \<open>One pass of the body of the loop \<open>for (let i = 0; i < creation.count; i++)\<close>.\<close>

definition spawn_one :: "(nat \<Rightarrow> real) \<Rightarrow> nat \<Rightarrow> nat \<Rightarrow> string \<Rightarrow> engine \<Rightarrow> engine" where
  "spawn_one rnd i j t e =
     (let p1 = e_particles e ! i;
          p2 = e_particles e ! j;
          k = e_randoms e;
          centerX = (p_x p1 + p_x p2) / 2;
          centerY = (p_y p1 + p_y p2) / 2;
          offsetX = (rnd k - 0.5) * 10;
          offsetY = (rnd (k + 1) - 0.5) * 10;
          avgVx = (p_vx p1 + p_vx p2) / 2;
          avgVy = (p_vy p1 + p_vy p2) / 2;
          randomVx = (rnd (k + 2) - 0.5) * 2;
          randomVy = (rnd (k + 3) - 0.5) * 2
      in e\<lparr>e_particlesToAdd := e_particlesToAdd e @
              [\<lparr>s_x = centerX + offsetX, s_y = centerY + offsetY, s_type = t,
                s_options = e_options e,
                s_initialVx = avgVx + randomVx, s_initialVy = avgVy + randomVy\<rparr>],
           e_randoms := k + 4\<rparr>)"

fun create_loop :: "(nat \<Rightarrow> real) \<Rightarrow> nat \<Rightarrow> nat \<Rightarrow> string \<Rightarrow> nat \<Rightarrow> engine \<Rightarrow> engine" where
  "create_loop rnd i j t 0 e = e"
| "create_loop rnd i j t (Suc n) e = create_loop rnd i j t n (spawn_one rnd i j t e)"

definition set_cooldown :: "nat \<Rightarrow> nat \<Rightarrow> particle list \<Rightarrow> particle list" where
  "set_cooldown i c ps = ps[i := (ps ! i)\<lparr>p_collisionCooldown := c\<rparr>]"

definition processCollision :: "(nat \<Rightarrow> real) \<Rightarrow> nat \<Rightarrow> nat \<Rightarrow> engine \<Rightarrow> engine" where
  "processCollision rnd i j e =
     (case rule_at (e_rules e) (p_type (e_particles e ! i)) (p_type (e_particles e ! j)) of
        None \<Rightarrow> e
      | Some r \<Rightarrow>
         (let e1 = e\<lparr>e_particles :=
                       set_cooldown j COLLISION_COOLDOWN_FRAMES
                         (set_cooldown i COLLISION_COOLDOWN_FRAMES (e_particles e))\<rparr>;
              e2 = (if destroyOriginals r
                    then e1\<lparr>e_particlesToRemove := e_particlesToRemove e1 @ [i, j]\<rparr> else e1);
              e3 = (if length (createParticles r) > 0
                    then fold (\<lambda>creation. create_loop rnd i j (cr_type creation) (cr_count creation))
                           (createParticles r) e2
                    else e2)
          in e3\<lparr>e_collisionsThisFrame := e_collisionsThisFrame e3 + 1,
                e_collisionsProcessed := e_collisionsProcessed e3 + 1\<rparr>))"

text \<open>
  \<open>checkCollision\<close> reads \<open>this.options.collisionDistanceRatio\<close> without a default:
  were it missing, the collision distance would be NaN and the comparison false.
\<close>

definition checkCollision :: "(nat \<Rightarrow> real) \<Rightarrow> nat \<Rightarrow> nat \<Rightarrow> engine \<Rightarrow> engine" where
  "checkCollision rnd i j e =
     (let p1 = e_particles e ! i;
          p2 = e_particles e ! j
      in if p_collisionCooldown p1 > 0 \<or> p_collisionCooldown p2 > 0 then e
         else (let dx = p_x p1 - p_x p2;
                   dy = p_y p1 - p_y p2;
                   distance = sqrt (dx * dx + dy * dy)
               in case opt_collisionDistanceRatio (e_options e) of
                    None \<Rightarrow> e
                  | Some ratio \<Rightarrow>
                     if distance < (p_size p1 + p_size p2) * ratio
                     then processCollision rnd i j e else e))"

definition calculateParticleInteraction ::
  "(nat \<Rightarrow> real) \<Rightarrow> nat \<Rightarrow> nat \<Rightarrow> engine \<Rightarrow> js_error + engine" where
  "calculateParticleInteraction rnd i j e =
     (case calculateForce (e_particles e ! i) (e_particles e ! j) (e_rules e) (e_options e) of
        Inl err \<Rightarrow> Inl err
      | Inr f \<Rightarrow>
         (let e1 = e\<lparr>e_particles := (e_particles e)[i := applyForce (e_particles e ! i) f]\<rparr>;
              e2 = (if e_collisionsThisFrame e1 < MAX_COLLISIONS_PER_FRAME
                    then checkCollision rnd i j e1 else e1)
          in Inr (e2\<lparr>e_forceCalculations := e_forceCalculations e2 + 1\<rparr>)))"

text \<open>A loop whose body may throw: the first error ends it.\<close>

fun forEachE :: "('a \<Rightarrow> 's \<Rightarrow> js_error + 's) \<Rightarrow> 'a list \<Rightarrow> 's \<Rightarrow> js_error + 's" where
  "forEachE f [] s = Inr s"
| "forEachE f (x # xs) s = (case f x s of Inl err \<Rightarrow> Inl err | Inr s' \<Rightarrow> forEachE f xs s')"

definition calculateForcesBruteForce :: "(nat \<Rightarrow> real) \<Rightarrow> engine \<Rightarrow> js_error + engine" where
  "calculateForcesBruteForce rnd e =
     forEachE (\<lambda>i. forEachE (\<lambda>j e'.
                 case calculateParticleInteraction rnd i j e' of
                   Inl err \<Rightarrow> Inl err
                 | Inr e'' \<Rightarrow> calculateParticleInteraction rnd j i e'')
               [i + 1..<length (e_particles e)])
       [0..<length (e_particles e)] e"

text \<open>
  \<open>calculateForcesWithQuadtree\<close>.  An insertion that never returns exhausts the call
  stack (RangeError).  The radius of the query is \<open>this.options.maxDistance\<close> without a
  default: were it missing, every comparison with it would be false and the query
  would find nothing.
\<close>

definition calculateForcesWithQuadtree :: "(nat \<Rightarrow> real) \<Rightarrow> engine \<Rightarrow> js_error + engine" where
  "calculateForcesWithQuadtree rnd e =
     (if length (e_particles e) = 0 then Inr e
      else (let boundary = \<lparr>r_x = 0, r_y = 0, r_width = e_canvasWidth e, r_height = e_canvasHeight e\<rparr>
            in case insertAll (position_of (e_particles e))
                      (Quadtree boundary (opt_quadtreeCapacity (e_options e)))
                      [0..<length (e_particles e)] of
                 None \<Rightarrow> Inl RangeError
               | Some tree \<Rightarrow>
                  forEachE (\<lambda>i e'.
                      (let nearbyParticles =
                             (case opt_maxDistance (e_options e') of
                                None \<Rightarrow> []
                              | Some radius \<Rightarrow>
                                  queryCircle (position_of (e_particles e')) tree
                                    (p_x (e_particles e' ! i)) (p_y (e_particles e' ! i)) radius [])
                       in forEachE (\<lambda>other e''.
                              if i \<noteq> other then calculateParticleInteraction rnd i other e''
                              else Inr e'')
                            nearbyParticles
                            (e'\<lparr>e_quadtreeQueries := e_quadtreeQueries e' + 1\<rparr>)))
                    [0..<length (e_particles e)]
                    (e\<lparr>e_quadtree := Some tree\<rparr>)))"

definition applyEdgeRepulsion :: "real \<Rightarrow> real \<Rightarrow> engine \<Rightarrow> engine" where
  "applyEdgeRepulsion canvasWidth canvasHeight e =
     e\<lparr>e_particles :=
         map (\<lambda>p. applyForce p (calculateEdgeRepulsion p canvasWidth canvasHeight (e_options e)))
           (e_particles e)\<rparr>"

text \<open>The start of \<open>update\<close>: the canvas size is stored, the lists and the counter are reset.\<close>

definition begin_frame :: "real \<Rightarrow> real \<Rightarrow> engine \<Rightarrow> engine" where
  "begin_frame canvasWidth canvasHeight e =
     e\<lparr>e_canvasWidth := canvasWidth, e_canvasHeight := canvasHeight,
       e_particlesToAdd := [], e_particlesToRemove := [], e_collisionsThisFrame := 0,
       e_particles := map resetForces (e_particles e)\<rparr>"

definition calculateForces :: "(nat \<Rightarrow> real) \<Rightarrow> engine \<Rightarrow> js_error + engine" where
  "calculateForces rnd e =
     (if opt_useQuadtree (e_options e) \<and> length (e_particles e) > 0
      then calculateForcesWithQuadtree rnd e else calculateForcesBruteForce rnd e)"

text \<open>
  \<open>PhysicsEngine.update\<close> returns the object of the two lists and the counter.  The
  model returns with it the engine after the edge repulsion and the particle array
  after the integration step (\<open>None\<close> for a particle whose velocity has become NaN).
\<close>

definition PhysicsEngine_update ::
  "(nat \<Rightarrow> real) \<Rightarrow> real \<Rightarrow> real \<Rightarrow> engine
     \<Rightarrow> js_error + (update_result \<times> engine \<times> particle option list)" where
  "PhysicsEngine_update rnd canvasWidth canvasHeight e =
     (case calculateForces rnd (begin_frame canvasWidth canvasHeight e) of
        Inl err \<Rightarrow> Inl err
      | Inr e1 \<Rightarrow>
         (let e2 = applyEdgeRepulsion canvasWidth canvasHeight e1
          in Inr (\<lparr>particlesToAdd = e_particlesToAdd e2,
                   particlesToRemove = e_particlesToRemove e2,
                   collisionsThisFrame = e_collisionsThisFrame e2\<rparr>,
                  e2,
                  map (update canvasWidth canvasHeight) (e_particles e2))))"

text \<open>The constructor and the two setters.\<close>

definition PhysicsEngine :: engine where
  "PhysicsEngine =
     \<lparr>e_quadtree = None, e_particles = [], e_rules = Map.empty, e_options = defaultOptions,
      e_collisionsThisFrame = 0, e_particlesToAdd = [], e_particlesToRemove = [],
      e_forceCalculations = 0, e_quadtreeQueries = 0, e_collisionsProcessed = 0,
      e_canvasWidth = 0, e_canvasHeight = 0, e_randoms = 0\<rparr>"

definition setParticles :: "particle list \<Rightarrow> engine \<Rightarrow> engine" where
  "setParticles ps e = e\<lparr>e_particles := ps\<rparr>"

definition engine_setRules :: "rules_table \<Rightarrow> engine \<Rightarrow> engine" where
  "engine_setRules rules e = e\<lparr>e_rules := rules\<rparr>"

text \<open>
  What the statements about the engine speak of.  \<open>remove_ok\<close>: the removal list
  names no particle twice, and every particle it names is cooling down.
\<close>

definition remove_ok :: "engine \<Rightarrow> bool" where
  "remove_ok e =
     (distinct (e_particlesToRemove e)
      \<and> (\<forall>i\<in>set (e_particlesToRemove e).
            i < length (e_particles e) \<and> p_collisionCooldown (e_particles e ! i) > 0))"

definition frame_inv :: "nat \<Rightarrow> engine \<Rightarrow> bool" where
  "frame_inv n e = (length (e_particles e) = n \<and> remove_ok e)"

text \<open>
  For an engine \<open>e\<close> of two particles and a later state \<open>s\<close> of the same frame:
  \<open>static\<close> says that the rules, the options and the position, type and size of
  both particles are those of \<open>e\<close>; \<open>before_collision\<close> that no collision has been
  processed; \<open>after_collision\<close> that both particles are cooling down and the spawn
  list holds two requests of type \<open>t\<close> within \<open>5\<close> of the midpoint on each axis.
  \<open>collision_setup\<close> collects the conditions on \<open>e\<close> under which the pair collides
  by the rule of the first particle towards the second.
\<close>

definition same_body :: "particle \<Rightarrow> particle \<Rightarrow> bool" where
  "same_body p q = (p_x p = p_x q \<and> p_y p = p_y q \<and> p_type p = p_type q \<and> p_size p = p_size q)"

definition static :: "engine \<Rightarrow> engine \<Rightarrow> bool" where
  "static e s =
     (length (e_particles s) = 2 \<and> e_rules s = e_rules e \<and> e_options s = e_options e
      \<and> same_body (e_particles s ! 0) (e_particles e ! 0)
      \<and> same_body (e_particles s ! 1) (e_particles e ! 1))"

definition before_collision :: "engine \<Rightarrow> engine \<Rightarrow> bool" where
  "before_collision e s =
     (static e s
      \<and> p_collisionCooldown (e_particles s ! 0) = 0 \<and> p_collisionCooldown (e_particles s ! 1) = 0
      \<and> e_particlesToAdd s = [] \<and> e_particlesToRemove s = [] \<and> e_collisionsThisFrame s = 0)"

definition near_midpoint :: "engine \<Rightarrow> string \<Rightarrow> spawn \<Rightarrow> bool" where
  "near_midpoint e t sp =
     (s_type sp = t
      \<and> \<bar>s_x sp - (p_x (e_particles e ! 0) + p_x (e_particles e ! 1)) / 2\<bar> \<le> 5
      \<and> \<bar>s_y sp - (p_y (e_particles e ! 0) + p_y (e_particles e ! 1)) / 2\<bar> \<le> 5)"

definition after_collision :: "engine \<Rightarrow> string \<Rightarrow> engine \<Rightarrow> bool" where
  "after_collision e t s =
     (static e s
      \<and> p_collisionCooldown (e_particles s ! 0) > 0 \<and> p_collisionCooldown (e_particles s ! 1) > 0
      \<and> e_particlesToRemove s = []
      \<and> length (e_particlesToAdd s) = 2 \<and> list_all (near_midpoint e t) (e_particlesToAdd s))"

definition collision_setup :: "(nat \<Rightarrow> real) \<Rightarrow> engine \<Rightarrow> string \<Rightarrow> rule \<Rightarrow> real \<Rightarrow> bool" where
  "collision_setup rnd e t r ratio =
     (rule_at (e_rules e) (p_type (e_particles e ! 0)) (p_type (e_particles e ! 1)) = Some r
      \<and> createParticles r = [\<lparr>cr_type = t, cr_count = 2\<rparr>] \<and> \<not> destroyOriginals r
      \<and> e_rules e (p_type (e_particles e ! 1)) \<noteq> None
      \<and> opt_collisionDistanceRatio (e_options e) = Some ratio
      \<and> pair_distance (e_particles e ! 0) (e_particles e ! 1)
          < (p_size (e_particles e ! 0) + p_size (e_particles e ! 1)) * ratio
      \<and> (\<forall>k. 0 \<le> rnd k \<and> rnd k < 1))"

section \<open>Concrete inputs\<close>


definition c6_this :: particle where
  "c6_this = Particle 1 0 0 ''red'' defaultOptions"
definition c6_other :: particle where
  "c6_other = Particle 2 1 0 ''blue'' defaultOptions"








definition c8_rules :: rules_table where
  "c8_rules = [''red'' \<mapsto> [''red'' \<mapsto> full_rule]]"

definition c8_saved :: "rules_table rule_manager" where
  "c8_saved = setRules c8_rules ''Rules updated'' 2
                (setRules c8_rules ''Rules updated'' 1 (RuleManager Map.empty))"

definition c8_edited :: "rules_table rule_manager" where
  "c8_edited = setForceRule ''red'' ''red'' 1 1 30 c8_saved"

definition undo_then_redo :: "'r rule_manager \<Rightarrow> 'r rule_manager option" where
  "undo_then_redo m =
     (case undo m of
        Inr (True, m1) \<Rightarrow> (case redo m1 of Inr (True, m2) \<Rightarrow> Some m2 | _ \<Rightarrow> None)
      | _ \<Rightarrow> None)"

definition c7_parse :: "string \<Rightarrow> js_error + json" where
  "c7_parse s =
     (if s = ''valid'' then Inr (JObj [(''rules'', JObj []), (''types'', JArr [JStr ''red''])])
      else if s = ''no types'' then Inr (JObj [(''rules'', JObj [])])
      else Inl SyntaxError)"

definition c9_pool :: particle_pool where
  "c9_pool = fst (pool_initialize (Some 1) [''red''] 1 ParticlePool)"

definition c9_stray :: particle where
  "c9_stray = Particle 2 10 10 ''red'' defaultOptions"

definition c5_rules :: rules_table where
  "c5_rules =
     [''A'' \<mapsto> [''A'' \<mapsto> full_rule,
                  ''B'' \<mapsto> full_rule\<lparr>createParticles := [\<lparr>cr_type = ''C'', cr_count = 2\<rparr>]\<rparr>],
      ''B'' \<mapsto> [''A'' \<mapsto> full_rule, ''B'' \<mapsto> full_rule]]"

definition c5_pa :: particle where
  "c5_pa = Particle 1 100 100 ''A'' defaultOptions"

definition c5_pb :: particle where
  "c5_pb = Particle 2 101 100 ''B'' defaultOptions"

definition c5_engine :: "particle list \<Rightarrow> engine" where
  "c5_engine ps = setParticles ps (engine_setRules c5_rules PhysicsEngine)"

definition c5_bruteForce :: "particle list \<Rightarrow> engine" where
  "c5_bruteForce ps = (c5_engine ps)\<lparr>e_options := defaultOptions\<lparr>opt_useQuadtree := False\<rparr>\<rparr>"

definition c10_rules :: rules_table where
  "c10_rules =
     [''A'' \<mapsto> [''A'' \<mapsto> full_rule, ''B'' \<mapsto> full_rule\<lparr>destroyOriginals := True\<rparr>],
      ''B'' \<mapsto> [''A'' \<mapsto> full_rule\<lparr>destroyOriginals := True\<rparr>, ''B'' \<mapsto> full_rule]]"

definition c10_engine :: engine where
  "c10_engine = (c5_bruteForce [c5_pa, c5_pb])\<lparr>e_rules := c10_rules\<rparr>"

section \<open>Properties of Particle.js\<close>








text \<open>
  C6.  With a rules object that has no row for the source type, and the pair in
  range, \<open>calculateForce\<close> throws a TypeError instead of using the neutral rule.
\<close>

theorem calculateForce_missing_row_throws:
  "calculateForce c6_this c6_other Map.empty defaultOptions = Inl TypeError"
  by (simp add: calculateForce_def c6_this_def c6_other_def Particle_def defaultOptions_def js_or_def Let_def)

text \<open>When the row exists and only the entry is missing the neutral rule is used.\<close>

lemma calculateForce_missing_entry_neutral:
  assumes "rules (p_type this) = Some row" "row (p_type otherParticle) = None"
  shows "calculateForce this otherParticle rules opts = calculateForce this otherParticle (rules(p_type this \<mapsto> row(p_type otherParticle \<mapsto> neutral_rule))) opts"
  using assms by (simp add: calculateForce_def Let_def)











section \<open>Properties of Quadtree.js\<close>

lemma quadrant_cover:
  "contains b pt \<longleftrightarrow> contains (quadrant b True False) pt \<or> contains (quadrant b False False) pt
     \<or> contains (quadrant b True True) pt \<or> contains (quadrant b False True) pt"
  by (cases pt) (auto simp: contains_def quadrant_def)

lemma expand_props:
  assumes "(if divided t then t else subdivide t) = Divided b c ps ne nw se sw"
  shows "boundary t = b" "capacity t = c" "particles t = ps"
    "elems t = set ps \<union> elems ne \<union> elems nw \<union> elems se \<union> elems sw"
    "quadrants_ok t \<Longrightarrow> quadrants_ok (Divided b c ps ne nw se sw)"
    "inside pos t \<Longrightarrow> inside pos (Divided b c ps ne nw se sw)"
  using assms
  by (cases t; auto simp: divided_def subdivide_def Quadtree_def quadrant_def Let_def)+

lemma push_props:
  "boundary (push_particle t p) = boundary t" "capacity (push_particle t p) = capacity t"
  "elems (push_particle t p) = Set.insert p (elems t)"
  "quadrants_ok (push_particle t p) = quadrants_ok t"
  "contains (boundary t) (pos p) \<Longrightarrow> inside pos t \<Longrightarrow> inside pos (push_particle t p)"
  by (cases t; auto simp: push_particle_def)+

lemma child_rel_same: "child_rel pos p t t False"
  by (simp add: child_rel_def)

lemma post_child_rel: "insert_post pos t p (r, t') \<Longrightarrow> child_rel pos p t t' r"
  by (simp add: insert_post_def child_rel_def)

lemma post_flag:
  "insert_post pos t p (r, t') \<Longrightarrow> quadrants_ok t \<Longrightarrow> r = contains (boundary t) (pos p)"
  by (simp add: insert_post_def)

lemma divided_elems:
  assumes "child_rel pos p ne ne' a1" "child_rel pos p nw nw' a2"
    "child_rel pos p se se' a3" "child_rel pos p sw sw' a4"
  shows "elems (Divided b c ps ne' nw' se' sw') =
     (if a1 \<or> a2 \<or> a3 \<or> a4 then Set.insert p (elems (Divided b c ps ne nw se sw))
      else elems (Divided b c ps ne nw se sw))"
  using assms unfolding child_rel_def by auto

lemma divided_inside:
  assumes "child_rel pos p ne ne' a1" "child_rel pos p nw nw' a2"
    "child_rel pos p se se' a3" "child_rel pos p sw sw' a4"
    "contains b (pos p)" "inside pos (Divided b c ps ne nw se sw)"
  shows "inside pos (Divided b c ps ne' nw' se' sw')"
proof -
  have e: "elems ne' \<subseteq> Set.insert p (elems ne)" "elems nw' \<subseteq> Set.insert p (elems nw)"
    "elems se' \<subseteq> Set.insert p (elems se)" "elems sw' \<subseteq> Set.insert p (elems sw)"
    using assms(1-4) unfolding child_rel_def by (auto split: if_splits)
  have i: "inside pos ne'" "inside pos nw'" "inside pos se'" "inside pos sw'"
    using assms unfolding child_rel_def by simp_all
  have a: "\<forall>q\<in>set ps \<union> elems ne \<union> elems nw \<union> elems se \<union> elems sw. contains b (pos q)"
    using assms(6) by simp
  have "\<forall>q\<in>set ps \<union> elems ne' \<union> elems nw' \<union> elems se' \<union> elems sw'. contains b (pos q)"
    using a e assms(5) by blast
  then show ?thesis using i by simp
qed

lemma divided_quadrants:
  assumes "child_rel pos p ne ne' a1" "child_rel pos p nw nw' a2"
    "child_rel pos p se se' a3" "child_rel pos p sw sw' a4"
    "quadrants_ok (Divided b c ps ne nw se sw)"
  shows "quadrants_ok (Divided b c ps ne' nw' se' sw')"
  using assms unfolding child_rel_def by simp

lemma divided_step:
  assumes ex: "(if divided t then t else subdivide t) = Divided b c ps ne nw se sw"
    and c: "contains (boundary t) (pos p)"
    and r: "child_rel pos p ne ne' a1" "child_rel pos p nw nw' a2"
      "child_rel pos p se se' a3" "child_rel pos p sw sw' a4"
    and flag: "quadrants_ok t \<Longrightarrow> a1 \<or> a2 \<or> a3 \<or> a4"
  shows "insert_post pos t p (a1 \<or> a2 \<or> a3 \<or> a4, Divided b c ps ne' nw' se' sw')"
proof -
  note e = expand_props [OF ex]
  have 1: "elems (Divided b c ps ne' nw' se' sw') =
      (if a1 \<or> a2 \<or> a3 \<or> a4 then Set.insert p (elems t) else elems t)"
    using divided_elems [OF r, of b c ps] e(4) by simp
  have 2: "inside pos t \<Longrightarrow> inside pos (Divided b c ps ne' nw' se' sw')"
    using divided_inside [OF r _ e(6)] c e(1) by simp
  have 3: "quadrants_ok t \<Longrightarrow> quadrants_ok (Divided b c ps ne' nw' se' sw')"
    using divided_quadrants [OF r e(5)] by simp
  show ?thesis
    unfolding insert_post_def using 1 2 3 c flag e(1,2) by simp
qed

lemma insert_partial:
  assumes "qt_insert pos t p = Some res"
  shows "insert_post pos t p res"
proof (rule qt_insert.raw_induct [OF _ assms], goal_cases)
  case (1 ins pos t p res)
  note IH = 1(1) and body = 1(2)
  show ?case
  proof (cases "\<not> contains (boundary t) (pos p)")
    case True
    with body have "res = (False, t)" by simp
    with True show ?thesis by (simp add: insert_post_def)
  next
    case c': False
    then have c: "contains (boundary t) (pos p)" by simp
    show ?thesis
    proof (cases "length (particles t) < capacity t")
      case True
      with c body have "res = (True, push_particle t p)" by simp
      with c show ?thesis by (simp add: insert_post_def push_props)
    next
      case False
      show ?thesis
      proof (cases "if divided t then t else subdivide t")
        case (Leaf b c ps)
        with body c False show ?thesis by simp
      next
        case (Divided b cp ps ne nw se sw)
        note ex = expand_props [OF Divided]
        from body c False Divided
        have eq: "Option.bind (ins pos ne p) (\<lambda>(r1, ne').
              if r1 then Some (True, Divided b cp ps ne' nw se sw)
              else Option.bind (ins pos nw p) (\<lambda>(r2, nw').
                if r2 then Some (True, Divided b cp ps ne' nw' se sw)
                else Option.bind (ins pos se p) (\<lambda>(r3, se').
                  if r3 then Some (True, Divided b cp ps ne' nw' se' sw)
                  else Option.bind (ins pos sw p) (\<lambda>(r4, sw').
                    Some (r4, Divided b cp ps ne' nw' se' sw'))))) = Some res"
          by simp
        from eq obtain r1 ne' where i1: "ins pos ne p = Some (r1, ne')"
          by (auto simp: bind_eq_Some_conv)
        note p1 = IH [OF i1]
        show ?thesis
        proof (cases r1)
          case True
          with eq i1 have res: "res = (True, Divided b cp ps ne' nw se sw)" by simp
          have "insert_post pos t p (r1 \<or> False \<or> False \<or> False, Divided b cp ps ne' nw se sw)"
            by (rule divided_step [OF Divided c post_child_rel [OF p1] child_rel_same child_rel_same child_rel_same])
               (simp add: True)
          with res True show ?thesis by simp
        next
          case f1: False
          with eq i1 obtain r2 nw' where i2: "ins pos nw p = Some (r2, nw')"
            by (auto simp: bind_eq_Some_conv)
          note p2 = IH [OF i2]
          show ?thesis
          proof (cases r2)
            case True
            with eq i1 i2 f1 have res: "res = (True, Divided b cp ps ne' nw' se sw)" by simp
            have "insert_post pos t p (r1 \<or> r2 \<or> False \<or> False, Divided b cp ps ne' nw' se sw)"
              by (rule divided_step [OF Divided c post_child_rel [OF p1] post_child_rel [OF p2] child_rel_same child_rel_same])
                 (simp add: True)
            with res True show ?thesis by simp
          next
            case f2: False
            with eq i1 i2 f1 obtain r3 se' where i3: "ins pos se p = Some (r3, se')"
              by (auto simp: bind_eq_Some_conv)
            note p3 = IH [OF i3]
            show ?thesis
            proof (cases r3)
              case True
              with eq i1 i2 i3 f1 f2 have res: "res = (True, Divided b cp ps ne' nw' se' sw)" by simp
              have "insert_post pos t p (r1 \<or> r2 \<or> r3 \<or> False, Divided b cp ps ne' nw' se' sw)"
                by (rule divided_step [OF Divided c post_child_rel [OF p1] post_child_rel [OF p2] post_child_rel [OF p3] child_rel_same])
                   (simp add: True)
              with res True show ?thesis by simp
            next
              case f3: False
              with eq i1 i2 i3 f1 f2 obtain r4 sw' where i4: "ins pos sw p = Some (r4, sw')"
                by (auto simp: bind_eq_Some_conv)
              note p4 = IH [OF i4]
              from eq i1 i2 i3 i4 f1 f2 f3 have res: "res = (r4, Divided b cp ps ne' nw' se' sw')" by simp
              have flag: "r1 \<or> r2 \<or> r3 \<or> r4" if q: "quadrants_ok t"
              proof -
                have qd: "quadrants_ok (Divided b cp ps ne nw se sw)" by (rule ex(5) [OF q])
                have "r1 = contains (quadrant b True False) (pos p)"
                  using post_flag [OF p1] qd by simp
                moreover have "r2 = contains (quadrant b False False) (pos p)"
                  using post_flag [OF p2] qd by simp
                moreover have "r3 = contains (quadrant b True True) (pos p)"
                  using post_flag [OF p3] qd by simp
                moreover have "r4 = contains (quadrant b False True) (pos p)"
                  using post_flag [OF p4] qd by simp
                ultimately show ?thesis
                  using quadrant_cover [of b "pos p"] c ex(1) by simp
              qed
              have "insert_post pos t p (r1 \<or> r2 \<or> r3 \<or> r4, Divided b cp ps ne' nw' se' sw')"
                by (rule divided_step [OF Divided c post_child_rel [OF p1] post_child_rel [OF p2] post_child_rel [OF p3] post_child_rel [OF p4] flag])
              with res f1 f2 f3 show ?thesis by simp
            qed
          qed
        qed
      qed
    qed
  qed
qed


lemma bind_chain_some:
  assumes "A = Some ra" "B = Some rb" "C = Some rc" "D = Some rd"
  shows "\<exists>res. Option.bind A (\<lambda>(r1, ne').
              if r1 then Some (True, f1 ne')
              else Option.bind B (\<lambda>(r2, nw').
                if r2 then Some (True, f2 ne' nw')
                else Option.bind C (\<lambda>(r3, se').
                  if r3 then Some (True, f3 ne' nw' se')
                  else Option.bind D (\<lambda>(r4, sw').
                    Some (r4, f4 ne' nw' se' sw'))))) = Some res"
  using assms by (cases ra; cases rb; cases rc; cases rd) auto

lemma insert_fresh_leaf:
  "0 < c \<Longrightarrow> \<exists>res. qt_insert pos (Leaf r c []) p = Some res"
  by (subst qt_insert.simps) auto

lemma insert_total:
  "quadrants_ok t \<Longrightarrow> 0 < capacity t \<Longrightarrow> \<exists>res. qt_insert pos t p = Some res"
proof (induction t)
  case (Leaf b c ps)
  then have c: "0 < c" by simp
  have d: "(if divided (Leaf b c ps) then Leaf b c ps else subdivide (Leaf b c ps)) =
      Divided b c ps (Leaf (quadrant b True False) c []) (Leaf (quadrant b False False) c [])
        (Leaf (quadrant b True True) c []) (Leaf (quadrant b False True) c [])"
    by (simp add: divided_def subdivide_def Quadtree_def quadrant_def Let_def)
  obtain r1 r2 r3 r4 where
    "qt_insert pos (Leaf (quadrant b True False) c []) p = Some r1"
    "qt_insert pos (Leaf (quadrant b False False) c []) p = Some r2"
    "qt_insert pos (Leaf (quadrant b True True) c []) p = Some r3"
    "qt_insert pos (Leaf (quadrant b False True) c []) p = Some r4"
    using insert_fresh_leaf [OF c] by metis
  from bind_chain_some [OF this] show ?case
    by (subst qt_insert.simps) (simp only: d quadtree_of.case, auto)
next
  case (Divided b c ps ne nw se sw)
  then obtain r1 r2 r3 r4 where
    "qt_insert pos ne p = Some r1" "qt_insert pos nw p = Some r2"
    "qt_insert pos se p = Some r3" "qt_insert pos sw p = Some r4"
    by auto
  from bind_chain_some [OF this] show ?case
    by (subst qt_insert.simps) (auto simp: divided_def)
qed

lemma insertAll_partial:
  "insertAll pos t ps = Some t' \<Longrightarrow> quadrants_ok t \<Longrightarrow> inside pos t \<Longrightarrow>
     quadrants_ok t' \<and> inside pos t' \<and> boundary t' = boundary t \<and> capacity t' = capacity t
     \<and> elems t' = elems t \<union> {p \<in> set ps. contains (boundary t) (pos p)}"
proof (induction ps arbitrary: t)
  case Nil
  then show ?case by simp
next
  case (Cons p ps)
  from Cons.prems(1) obtain r t1 where i: "qt_insert pos t p = Some (r, t1)"
    and a: "insertAll pos t1 ps = Some t'"
    by (auto simp: bind_eq_Some_conv)
  from insert_partial [OF i] Cons.prems(2,3)
  have p: "boundary t1 = boundary t" "capacity t1 = capacity t"
    "elems t1 = (if r then Set.insert p (elems t) else elems t)"
    "inside pos t1" "quadrants_ok t1" "r = contains (boundary t) (pos p)"
    by (simp_all add: insert_post_def)
  from Cons.IH [OF a p(5) p(4)] p show ?case by auto
qed

lemma insertAll_total:
  "quadrants_ok t \<Longrightarrow> 0 < capacity t \<Longrightarrow> \<exists>t'. insertAll pos t ps = Some t'"
proof (induction ps arbitrary: t)
  case Nil
  then show ?case by simp
next
  case (Cons p ps)
  from insert_total [OF Cons.prems] obtain r t1 where i: "qt_insert pos t p = Some (r, t1)"
    by (metis surj_pair)
  from insert_partial [OF i] Cons.prems
  have "quadrants_ok t1" "0 < capacity t1" by (simp_all add: insert_post_def)
  from Cons.IH [OF this] i show ?case by simp
qed


lemma abs_le_mult_self: "\<bar>a\<bar> \<le> \<bar>b\<bar> \<Longrightarrow> a * a \<le> b * (b::real)"
  using abs_le_square_iff [of a b] by (simp add: power2_eq_square)

lemma prune_sound:
  assumes "contains b (pos p)" "circle_misses b x y radius"
  shows "\<not> in_circle pos x y radius p"
proof -
  obtain px py where pp: "pos p = (px, py)" by (cases "pos p")
  from assms(1) pp have bx: "r_x b \<le> px" "px < r_x b + r_width b"
    and by': "r_y b \<le> py" "py < r_y b + r_height b"
    by (simp_all add: contains_def)
  have "\<bar>x - max (r_x b) (min x (r_x b + r_width b))\<bar> \<le> \<bar>px - x\<bar>"
    using bx by (auto simp: max_def min_def)
  then have 1: "(x - max (r_x b) (min x (r_x b + r_width b))) * (x - max (r_x b) (min x (r_x b + r_width b)))
      \<le> (px - x) * (px - x)"
    by (rule abs_le_mult_self)
  have "\<bar>y - max (r_y b) (min y (r_y b + r_height b))\<bar> \<le> \<bar>py - y\<bar>"
    using by' by (auto simp: max_def min_def)
  then have 2: "(y - max (r_y b) (min y (r_y b + r_height b))) * (y - max (r_y b) (min y (r_y b + r_height b)))
      \<le> (py - y) * (py - y)"
    by (rule abs_le_mult_self)
  from assms(2) have "radius * radius < (px - x) * (px - x) + (py - y) * (py - y)"
    using 1 2 unfolding circle_misses_def Let_def by linarith
  then show ?thesis by (simp add: in_circle_def pp Let_def)
qed

lemma queryCircle_set:
  "inside pos t \<Longrightarrow>
     set (queryCircle pos t x y radius found) = set found \<union> {p \<in> elems t. in_circle pos x y radius p}"
proof (induction t arbitrary: found)
  case (Leaf b c ps)
  then show ?case using prune_sound [of b pos _ x y radius] by auto
next
  case (Divided b c ps ne nw se sw)
  show ?case
  proof (cases "circle_misses b x y radius")
    case True
    with Divided.prems prune_sound [of b pos _ x y radius] show ?thesis by auto
  next
    case False
    from Divided.prems have i: "inside pos ne" "inside pos nw" "inside pos se" "inside pos sw"
      by simp_all
    show ?thesis
      using False
      by (simp add: Divided.IH(1) [OF i(1)] Divided.IH(2) [OF i(2)] Divided.IH(3) [OF i(3)]
          Divided.IH(4) [OF i(4)]) blast
  qed
qed


lemma queryCircle_subset:
  "set (queryCircle pos t x y radius found) \<subseteq> set found \<union> elems t"
proof (induction t arbitrary: found)
  case (Leaf b c ps)
  then show ?case by auto
next
  case (Divided b c ps ne nw se sw)
  show ?case
  proof (cases "circle_misses b x y radius")
    case True
    then show ?thesis by simp
  next
    case False
    have "set (queryCircle pos (Divided b c ps ne nw se sw) x y radius found)
        \<subseteq> set (found @ filter (in_circle pos x y radius) ps) \<union> elems ne \<union> elems nw \<union> elems se \<union> elems sw"
      using False Divided.IH(1) [of "found @ filter (in_circle pos x y radius) ps"]
        Divided.IH(2) [of "queryCircle pos ne x y radius (found @ filter (in_circle pos x y radius) ps)"]
        Divided.IH(3) [of "queryCircle pos nw x y radius (queryCircle pos ne x y radius (found @ filter (in_circle pos x y radius) ps))"]
        Divided.IH(4) [of "queryCircle pos se x y radius (queryCircle pos nw x y radius (queryCircle pos ne x y radius (found @ filter (in_circle pos x y radius) ps)))"]
      by (simp only: queryCircle.simps if_False) blast
    then show ?thesis by auto
  qed
qed

lemma insertAll_elems_subset:
  "insertAll pos t ps = Some t' \<Longrightarrow> elems t' \<subseteq> elems t \<union> set ps"
proof (induction ps arbitrary: t)
  case Nil
  then show ?case by simp
next
  case (Cons p ps)
  from Cons.prems obtain r t1 where i: "qt_insert pos t p = Some (r, t1)"
    and a: "insertAll pos t1 ps = Some t'"
    by (auto simp: bind_eq_Some_conv)
  from insert_partial [OF i] have "elems t1 \<subseteq> Set.insert p (elems t)"
    by (auto simp: insert_post_def split: if_splits)
  with Cons.IH [OF a] show ?case by auto
qed

lemma in_circle_distance:
  assumes "sqrt ((a - x) * (a - x) + (b - y) * (b - y)) \<le> radius" "pos p = (a, b)"
  shows "in_circle pos x y radius p"
proof -
  have r: "0 \<le> radius" using assms(1) real_sqrt_ge_zero [of "(a - x) * (a - x) + (b - y) * (b - y)"]
    by (meson order_trans real_sqrt_ge_0_iff sum_squares_ge_zero)
  have "(a - x) * (a - x) + (b - y) * (b - y) \<le> radius\<^sup>2"
    using assms(1) r by (metis real_sqrt_le_iff real_sqrt_abs abs_of_nonneg)
  then show ?thesis by (simp add: in_circle_def Let_def assms(2) power2_eq_square)
qed







section \<open>Properties of RuleManager.js\<close>

text \<open>Every import is rejected: a text with both fields reaches the assignment to \<open>types\<close>.\<close>

lemma importRules_rejects: "importRules parse jsonString now m = (False, m)"
  by (simp add: importRules_def importRules_try_def assign_types_def
      split: sum.splits prod.splits)

text \<open>
  C7.  For every input text, \<open>importRules\<close> either returns \<open>true\<close> with the rule table
  replaced by the imported rules, or returns \<open>false\<close> with the manager (rule table
  and history) unchanged; a text that does not parse, or lacks \<open>rules\<close> or \<open>types\<close>,
  is rejected with the manager unchanged.
\<close>

theorem importRules_all_or_nothing:
  "(case importRules parse jsonString now m of
      (ok, m') \<Rightarrow>
        ((ok \<and> Some (rm_rules m') = imported_rules parse jsonString) \<or> (\<not> ok \<and> m' = m))
        \<and> (malformed parse jsonString \<longrightarrow> \<not> ok \<and> m' = m))"
  by (simp add: importRules_rejects)

theorem importRules_all_or_nothing_witness:
  "malformed c7_parse ''no types''
   \<and> importRules c7_parse ''no types'' 0 (RuleManager JNull) = (False, RuleManager JNull)"
proof -
  have m: "malformed c7_parse ''no types''"
    by (simp add: malformed_def c7_parse_def js_get_def)
  from importRules_all_or_nothing [where parse = c7_parse and jsonString = "''no types''"
      and now = 0 and m = "RuleManager JNull"] m
  show ?thesis
    by (auto split: prod.splits)
qed

text \<open>
  C8 (as amended).  For a manager whose cursor is at least \<open>1\<close> and inside the
  history, and whose rule table equals the snapshot at the cursor (no edit since the
  last save), \<open>undo\<close> succeeds, \<open>redo\<close> then succeeds and restores the rule table and
  the cursor; and saving any table \<open>r\<close> after the undo leaves the history truncated
  after the cursor with the new entry last, so that \<open>redo\<close> returns \<open>false\<close>.
\<close>

theorem undo_redo_restores:
  assumes "1 \<le> rm_currentHistoryIndex m"
    and "rm_currentHistoryIndex m < int (length (rm_ruleHistory m))"
    and "rm_rules m = h_rules (rm_ruleHistory m ! nat (rm_currentHistoryIndex m))"
  shows "\<exists>m1 m2. undo m = Inr (True, m1) \<and> redo m1 = Inr (True, m2) \<and> rm_rules m2 = rm_rules m
           \<and> rm_currentHistoryIndex m2 = rm_currentHistoryIndex m
           \<and> rm_ruleHistory (saveToHistory label now (m1\<lparr>rm_rules := r\<rparr>)) =
               (let h = take (nat (rm_currentHistoryIndex m)) (rm_ruleHistory m)
                        @ [\<lparr>h_label = label, h_rules = r, h_timestamp = now\<rparr>]
                in if length h > rm_maxHistorySize m then tl h else h)
           \<and> redo (saveToHistory label now (m1\<lparr>rm_rules := r\<rparr>)) =
               Inr (False, saveToHistory label now (m1\<lparr>rm_rules := r\<rparr>))"
proof -
  let ?i = "rm_currentHistoryIndex m"
  let ?h = "rm_ruleHistory m"
  define m1 where "m1 = m\<lparr>rm_currentHistoryIndex := ?i - 1, rm_rules := deep_copy (h_rules (?h ! nat (?i - 1)))\<rparr>"
  define m2 where "m2 = m1\<lparr>rm_currentHistoryIndex := ?i, rm_rules := deep_copy (h_rules (?h ! nat ?i))\<rparr>"
  have u: "undo m = Inr (True, m1)"
    using assms(1,2) by (simp add: undo_def history_at_def m1_def)
  have r: "redo m1 = Inr (True, m2)"
    using assms(1,2) by (simp add: redo_def history_at_def m1_def m2_def)
  have e: "rm_rules m2 = rm_rules m" "rm_currentHistoryIndex m2 = ?i"
    using assms(3) by (simp_all add: m2_def deep_copy_def)
  let ?s = "saveToHistory label now (m1\<lparr>rm_rules := r\<rparr>)"
  have n: "nat (?i - 1 + 1) = nat ?i" by simp
  have h: "rm_ruleHistory ?s =
      (let h = take (nat ?i) ?h @ [\<lparr>h_label = label, h_rules = r, h_timestamp = now\<rparr>]
       in if length h > rm_maxHistorySize m then tl h else h)"
    using assms(1,2) by (simp add: saveToHistory_def m1_def slice0_def deep_copy_def Let_def)
  have l: "min (length ?h) (nat ?i) = nat ?i" using assms(1,2) by simp
  have "\<not> rm_currentHistoryIndex ?s < int (length (rm_ruleHistory ?s)) - 1"
    using assms(1,2) by (auto simp: saveToHistory_def m1_def slice0_def deep_copy_def Let_def l)
  then have f: "redo ?s = Inr (False, ?s)"
    by (simp add: redo_def)
  from u r e h f show ?thesis by blast
qed

theorem undo_redo_restores_witness:
  "\<exists>m1 m2. undo c8_saved = Inr (True, m1) \<and> redo m1 = Inr (True, m2)
       \<and> rm_rules m2 = rm_rules c8_saved
       \<and> redo (saveToHistory ''edit'' 3 (m1\<lparr>rm_rules := Map.empty\<rparr>)) =
               Inr (False, saveToHistory ''edit'' 3 (m1\<lparr>rm_rules := Map.empty\<rparr>))"
proof -
  have h: "1 \<le> rm_currentHistoryIndex c8_saved"
    "rm_currentHistoryIndex c8_saved < int (length (rm_ruleHistory c8_saved))"
    "rm_rules c8_saved = h_rules (rm_ruleHistory c8_saved ! nat (rm_currentHistoryIndex c8_saved))"
    by (simp_all add: c8_saved_def setRules_def saveToHistory_def RuleManager_def deep_copy_def
        slice0_def Let_def)
  from undo_redo_restores [OF h, of "''edit''" 3 Map.empty] show ?thesis by blast
qed

text \<open>
  \<open>setForceRule\<close> edits the table in place and saves nothing: after two saves and an
  edit of the close force to \<open>1\<close>, undo followed by redo gives the saved table, with
  close force \<open>0\<close>.
\<close>

theorem undo_redo_unsaved_edit_counterexample:
  "length (rm_ruleHistory c8_edited) = 2 \<and> rm_currentHistoryIndex c8_edited = 1
   \<and> map_option closeForce (rule_at (rm_rules c8_edited) ''red'' ''red'') = Some 1
   \<and> map_option (\<lambda>m. map_option closeForce (rule_at (rm_rules m) ''red'' ''red''))
        (undo_then_redo c8_edited) = Some (Some 0)"
  by (simp add: c8_edited_def c8_saved_def c8_rules_def setForceRule_def setRules_def
      saveToHistory_def RuleManager_def deep_copy_def slice0_def full_rule_def rule_at_def
      undo_then_redo_def undo_def redo_def history_at_def Let_def)

section \<open>Properties of ParticlePool.js\<close>

text \<open>
  C9.  On an initialized pool of one particle with no particle acquired, returning
  a particle that was never acquired pushes it and decrements the count of active
  particles to \<open>-1\<close>, the state that \<open>validate\<close> reports as an issue.
\<close>

theorem returnParticle_unacquired_negative:
  "pool_initialized c9_pool \<and> length (pool c9_pool) = 1 \<and> currentActive (stats c9_pool) = 0
   \<and> currentActive (stats (returnParticle [''red''] c9_stray c9_pool)) = - 1
   \<and> negative_active_count (returnParticle [''red''] c9_stray c9_pool)"
  by (simp add: c9_pool_def c9_stray_def pool_initialize_def ParticlePool_def returnParticle_def
      negative_active_count_def MAX_TOTAL_PARTICLES_def MIN_POOL_SIZE_def PARTICLE_COUNT_PER_TYPE_def
      Let_def)

section \<open>Properties of PhysicsEngine.js\<close>

lemma spawn_one_keeps:
  "e_particles (spawn_one rnd i j t e) = e_particles e"
  "e_particlesToRemove (spawn_one rnd i j t e) = e_particlesToRemove e"
  by (simp_all add: spawn_one_def Let_def)

lemma create_loop_keeps:
  "e_particles (create_loop rnd i j t n e) = e_particles e
   \<and> e_particlesToRemove (create_loop rnd i j t n e) = e_particlesToRemove e"
  by (induction n arbitrary: e) (simp_all add: spawn_one_keeps)

lemma fold_create_keeps:
  "e_particles (fold (\<lambda>creation. create_loop rnd i j (cr_type creation) (cr_count creation)) cs e)
     = e_particles e
   \<and> e_particlesToRemove (fold (\<lambda>creation. create_loop rnd i j (cr_type creation) (cr_count creation)) cs e)
     = e_particlesToRemove e"
  by (induction cs arbitrary: e) (simp_all add: create_loop_keeps)

lemma processCollision_fields:
  "rule_at (e_rules e) (p_type (e_particles e ! i)) (p_type (e_particles e ! j)) = Some r \<Longrightarrow>
     e_particles (processCollision rnd i j e) =
       set_cooldown j COLLISION_COOLDOWN_FRAMES (set_cooldown i COLLISION_COOLDOWN_FRAMES (e_particles e))
     \<and> e_particlesToRemove (processCollision rnd i j e) =
       (if destroyOriginals r then e_particlesToRemove e @ [i, j] else e_particlesToRemove e)"
  by (simp add: processCollision_def Let_def fold_create_keeps)

lemma set_cooldown_length: "length (set_cooldown i c ps) = length ps"
  by (simp add: set_cooldown_def)

lemma set_cooldown_nth:
  "k < length ps \<Longrightarrow>
     p_collisionCooldown (set_cooldown i c ps ! k) = (if k = i then c else p_collisionCooldown (ps ! k))"
  by (simp add: set_cooldown_def nth_list_update)

lemma processCollision_inv:
  assumes "frame_inv n e" "i \<noteq> j" "i < n" "j < n"
    "p_collisionCooldown (e_particles e ! i) = 0" "p_collisionCooldown (e_particles e ! j) = 0"
  shows "frame_inv n (processCollision rnd i j e)"
proof (cases "rule_at (e_rules e) (p_type (e_particles e ! i)) (p_type (e_particles e ! j))")
  case None
  with assms(1) show ?thesis by (simp add: processCollision_def)
next
  case (Some r)
  note f = processCollision_fields [OF Some, of rnd]
  from assms(1) have len: "length (e_particles e) = n" and ok: "remove_ok e"
    by (simp_all add: frame_inv_def)
  have notin: "i \<notin> set (e_particlesToRemove e)" "j \<notin> set (e_particlesToRemove e)"
    using ok assms(5,6) by (auto simp: remove_ok_def)
  have cd: "\<And>k. k < n \<Longrightarrow>
      p_collisionCooldown (e_particles (processCollision rnd i j e) ! k) =
        (if k = i \<or> k = j then COLLISION_COOLDOWN_FRAMES else p_collisionCooldown (e_particles e ! k))"
    using len by (auto simp: f set_cooldown_nth set_cooldown_length)
  have l: "length (e_particles (processCollision rnd i j e)) = n"
    using len by (simp add: f set_cooldown_length)
  have d: "distinct (e_particlesToRemove (processCollision rnd i j e))"
    using ok notin assms(2) by (simp add: f remove_ok_def)
  have "\<forall>k\<in>set (e_particlesToRemove (processCollision rnd i j e)).
      k < n \<and> p_collisionCooldown (e_particles (processCollision rnd i j e) ! k) > 0"
  proof
    fix k assume k: "k \<in> set (e_particlesToRemove (processCollision rnd i j e))"
    then have "k = i \<or> k = j \<or> k \<in> set (e_particlesToRemove e)"
      by (auto simp: f split: if_splits)
    then have kn: "k < n" using assms(3,4) ok len by (auto simp: remove_ok_def)
    have "p_collisionCooldown (e_particles (processCollision rnd i j e) ! k) > 0"
    proof (cases "k = i \<or> k = j")
      case True
      then show ?thesis using cd [OF kn] by (simp add: COLLISION_COOLDOWN_FRAMES_def)
    next
      case False
      then have "k \<in> set (e_particlesToRemove e)"
        using \<open>k = i \<or> k = j \<or> k \<in> set (e_particlesToRemove e)\<close> by simp
      then show ?thesis using cd [OF kn] False ok by (simp add: remove_ok_def)
    qed
    with kn show "k < n \<and> p_collisionCooldown (e_particles (processCollision rnd i j e) ! k) > 0"
      by simp
  qed
  with d l show ?thesis by (simp add: frame_inv_def remove_ok_def)
qed

lemma checkCollision_inv:
  assumes "frame_inv n e" "i \<noteq> j" "i < n" "j < n"
  shows "frame_inv n (checkCollision rnd i j e)"
  using assms processCollision_inv [OF assms, of rnd]
  by (auto simp: checkCollision_def Let_def split: option.splits)

lemma applyForce_inv:
  assumes "frame_inv n e"
  shows "frame_inv n (e\<lparr>e_particles := (e_particles e)[i := applyForce (e_particles e ! i) f]\<rparr>)"
proof -
  have "\<And>k. k < length (e_particles e) \<Longrightarrow>
      p_collisionCooldown ((e_particles e)[i := applyForce (e_particles e ! i) f] ! k)
        = p_collisionCooldown (e_particles e ! k)"
    subgoal for k by (cases "k = i") (simp_all add: applyForce_def) done
  with assms show ?thesis by (auto simp: frame_inv_def remove_ok_def)
qed

lemma interaction_inv:
  assumes "calculateParticleInteraction rnd i j e = Inr e'"
    and "frame_inv n e" "i \<noteq> j" "i < n" "j < n"
  shows "frame_inv n e'"
proof -
  obtain f where cf: "calculateForce (e_particles e ! i) (e_particles e ! j) (e_rules e) (e_options e) = Inr f"
    using assms(1)
    by (cases "calculateForce (e_particles e ! i) (e_particles e ! j) (e_rules e) (e_options e)")
       (auto simp: calculateParticleInteraction_def)
  let ?e1 = "e\<lparr>e_particles := (e_particles e)[i := applyForce (e_particles e ! i) f]\<rparr>"
  let ?e2 = "if e_collisionsThisFrame ?e1 < MAX_COLLISIONS_PER_FRAME
             then checkCollision rnd i j ?e1 else ?e1"
  have e': "?e2\<lparr>e_forceCalculations := e_forceCalculations ?e2 + 1\<rparr> = e'"
    using assms(1) unfolding calculateParticleInteraction_def cf by (simp add: Let_def)
  have 1: "frame_inv n ?e1" by (rule applyForce_inv [OF assms(2)])
  have 2: "frame_inv n (checkCollision rnd i j ?e1)"
    by (rule checkCollision_inv [OF 1 assms(3-5)])
  have 3: "frame_inv n ?e2" using 1 2 by simp
  have 4: "\<And>x. frame_inv n x \<Longrightarrow> frame_inv n (x\<lparr>e_forceCalculations := e_forceCalculations x + 1\<rparr>)"
    by (auto simp: frame_inv_def remove_ok_def)
  from 4 [OF 3] show ?thesis unfolding e' .
qed

lemma forEachE_inv:
  assumes "forEachE f xs s = Inr s'" "I s"
    and "\<And>x a b. x \<in> set xs \<Longrightarrow> I a \<Longrightarrow> f x a = Inr b \<Longrightarrow> I b"
  shows "I s'"
  using assms
proof (induction xs arbitrary: s)
  case Nil
  then show ?case by simp
next
  case (Cons x xs)
  from Cons.prems(1) obtain s1 where 1: "f x s = Inr s1" and 2: "forEachE f xs s1 = Inr s'"
    by (auto split: sum.splits)
  have s1: "I s1" using Cons.prems(3) [OF _ Cons.prems(2) 1] by simp
  show ?case
  proof (rule Cons.IH [OF 2 s1])
    fix y a b
    assume "y \<in> set xs" "I a" "f y a = Inr b"
    then show "I b" using Cons.prems(3) [of y a b] by simp
  qed
qed

lemma bruteForce_inv:
  assumes "calculateForcesBruteForce rnd e = Inr e'" "frame_inv n e" "length (e_particles e) = n"
  shows "frame_inv n e'"
proof (rule forEachE_inv [where I = "frame_inv n", OF assms(1) [unfolded calculateForcesBruteForce_def] assms(2)])
  fix i a b
  assume i: "i \<in> set [0..<length (e_particles e)]" and a: "frame_inv n a"
    and run: "forEachE (\<lambda>j e'. case calculateParticleInteraction rnd i j e' of
                   Inl err \<Rightarrow> Inl err
                 | Inr e'' \<Rightarrow> calculateParticleInteraction rnd j i e'')
               [i + 1..<length (e_particles e)] a = Inr b"
  show "frame_inv n b"
  proof (rule forEachE_inv [where I = "frame_inv n", OF run a])
    fix j c d
    assume j: "j \<in> set [i + 1..<length (e_particles e)]" and c: "frame_inv n c"
      and step: "(case calculateParticleInteraction rnd i j c of
                   Inl err \<Rightarrow> Inl err
                 | Inr e'' \<Rightarrow> calculateParticleInteraction rnd j i e'') = Inr d"
    from step obtain m where 1: "calculateParticleInteraction rnd i j c = Inr m"
      and 2: "calculateParticleInteraction rnd j i m = Inr d"
      by (auto split: sum.splits)
    from i j assms(3) have ij: "i \<noteq> j" "i < n" "j < n" by auto
    have "frame_inv n m" by (rule interaction_inv [OF 1 c ij])
    then show "frame_inv n d" using interaction_inv [OF 2 _ ij(1) [symmetric] ij(3) ij(2)] by simp
  qed
qed

lemma quadtree_inv:
  assumes "calculateForcesWithQuadtree rnd e = Inr e'" "frame_inv n e" "length (e_particles e) = n"
  shows "frame_inv n e'"
proof (cases "length (e_particles e) = 0")
  case True
  with assms show ?thesis by (simp add: calculateForcesWithQuadtree_def)
next
  case False
  let ?b = "\<lparr>r_x = 0, r_y = 0, r_width = e_canvasWidth e, r_height = e_canvasHeight e\<rparr>"
  from assms(1) False obtain tree where
    t: "insertAll (position_of (e_particles e)) (Quadtree ?b (opt_quadtreeCapacity (e_options e)))
          [0..<length (e_particles e)] = Some tree"
    and run: "forEachE (\<lambda>i e'.
                      (let nearbyParticles =
                             (case opt_maxDistance (e_options e') of
                                None \<Rightarrow> []
                              | Some radius \<Rightarrow>
                                  queryCircle (position_of (e_particles e')) tree
                                    (p_x (e_particles e' ! i)) (p_y (e_particles e' ! i)) radius [])
                       in forEachE (\<lambda>other e''.
                              if i \<noteq> other then calculateParticleInteraction rnd i other e''
                              else Inr e'')
                            nearbyParticles
                            (e'\<lparr>e_quadtreeQueries := e_quadtreeQueries e' + 1\<rparr>)))
                    [0..<length (e_particles e)]
                    (e\<lparr>e_quadtree := Some tree\<rparr>) = Inr e'"
    by (auto simp: calculateForcesWithQuadtree_def Let_def split: option.splits)
  from insertAll_elems_subset [OF t] assms(3)
  have el: "elems tree \<subseteq> {0..<n}" by (auto simp: Quadtree_def)
  have start: "frame_inv n (e\<lparr>e_quadtree := Some tree\<rparr>)"
    using assms(2) by (auto simp: frame_inv_def remove_ok_def)
  show ?thesis
  proof (rule forEachE_inv [where I = "frame_inv n", OF run start])
    fix i a b
    assume i: "i \<in> set [0..<length (e_particles e)]" and a: "frame_inv n a"
      and inner: "(let nearbyParticles =
                             (case opt_maxDistance (e_options a) of
                                None \<Rightarrow> []
                              | Some radius \<Rightarrow>
                                  queryCircle (position_of (e_particles a)) tree
                                    (p_x (e_particles a ! i)) (p_y (e_particles a ! i)) radius [])
                       in forEachE (\<lambda>other e''.
                              if i \<noteq> other then calculateParticleInteraction rnd i other e''
                              else Inr e'')
                            nearbyParticles
                            (a\<lparr>e_quadtreeQueries := e_quadtreeQueries a + 1\<rparr>)) = Inr b"
    define nearby where "nearby = (case opt_maxDistance (e_options a) of
                                None \<Rightarrow> []
                              | Some radius \<Rightarrow>
                                  queryCircle (position_of (e_particles a)) tree
                                    (p_x (e_particles a ! i)) (p_y (e_particles a ! i)) radius [])"
    have near: "set nearby \<subseteq> {0..<n}"
    proof (cases "opt_maxDistance (e_options a)")
      case None
      then show ?thesis by (simp add: nearby_def)
    next
      case (Some radius)
      have "set nearby \<subseteq> elems tree"
        using queryCircle_subset [of "position_of (e_particles a)" tree
            "p_x (e_particles a ! i)" "p_y (e_particles a ! i)" radius "[]"]
        by (simp add: nearby_def Some)
      with el show ?thesis by blast
    qed
    from inner have run2: "forEachE (\<lambda>other e''.
                              if i \<noteq> other then calculateParticleInteraction rnd i other e''
                              else Inr e'')
                            nearby (a\<lparr>e_quadtreeQueries := e_quadtreeQueries a + 1\<rparr>) = Inr b"
      by (simp add: nearby_def Let_def)
    have a': "frame_inv n (a\<lparr>e_quadtreeQueries := e_quadtreeQueries a + 1\<rparr>)"
      using a by (auto simp: frame_inv_def remove_ok_def)
    show "frame_inv n b"
    proof (rule forEachE_inv [where I = "frame_inv n", OF run2 a'])
      fix other c d
      assume o: "other \<in> set nearby" and c: "frame_inv n c"
        and step: "(if i \<noteq> other then calculateParticleInteraction rnd i other c else Inr c) = Inr d"
      show "frame_inv n d"
      proof (cases "i = other")
        case True
        with step c show ?thesis by simp
      next
        case False
        with step have s: "calculateParticleInteraction rnd i other c = Inr d" by simp
        from i assms(3) have "i < n" by simp
        moreover from o near have "other < n" by auto
        ultimately show ?thesis using interaction_inv [OF s c False] by simp
      qed
    qed
  qed
qed

text \<open>
  C10.  Whenever \<open>PhysicsEngine.update\<close> returns, in brute-force or in quadtree mode
  and for any particles, rules and options, the returned \<open>particlesToRemove\<close> list
  names each particle at most once: a particle is pushed only by \<open>processCollision\<close>,
  which runs on two distinct particles with zero cooldown and sets both cooldowns to
  \<open>COLLISION_COOLDOWN_FRAMES\<close> before pushing them.
\<close>

theorem update_removes_each_particle_once:
  assumes "PhysicsEngine_update rnd canvasWidth canvasHeight e = Inr (res, e', store)"
  shows "distinct (particlesToRemove res)"
proof -
  let ?e0 = "begin_frame canvasWidth canvasHeight e"
  let ?n = "length (e_particles ?e0)"
  from assms obtain e1 where f: "calculateForces rnd ?e0 = Inr e1"
    and res: "res = \<lparr>particlesToAdd = e_particlesToAdd (applyEdgeRepulsion canvasWidth canvasHeight e1),
                   particlesToRemove = e_particlesToRemove (applyEdgeRepulsion canvasWidth canvasHeight e1),
                   collisionsThisFrame = e_collisionsThisFrame (applyEdgeRepulsion canvasWidth canvasHeight e1)\<rparr>"
    by (auto simp: PhysicsEngine_update_def Let_def split: sum.splits)
  have start: "frame_inv ?n ?e0"
    by (simp add: frame_inv_def remove_ok_def begin_frame_def)
  have "frame_inv ?n e1"
    using f bruteForce_inv [OF _ start refl] quadtree_inv [OF _ start refl]
    by (auto simp: calculateForces_def split: if_splits)
  then have "distinct (e_particlesToRemove e1)"
    by (simp add: frame_inv_def remove_ok_def)
  then show ?thesis by (simp add: res applyEdgeRepulsion_def)
qed

lemma same_body_applyForce [simp]: "same_body (applyForce p f) q = same_body p q"
  by (simp add: same_body_def applyForce_def)

lemma same_body_cooldown [simp]: "same_body (p\<lparr>p_collisionCooldown := c\<rparr>) q = same_body p q"
  by (simp add: same_body_def)

lemma cooldown_applyForce [simp]: "p_collisionCooldown (applyForce p f) = p_collisionCooldown p"
  by (simp add: applyForce_def)

lemma less_two: "k < 2 \<longleftrightarrow> k = 0 \<or> k = Suc 0"
  by auto

lemma static_applyForce:
  "static e s \<Longrightarrow> i < 2 \<Longrightarrow>
     static e (s\<lparr>e_particles := (e_particles s)[i := applyForce (e_particles s ! i) f]\<rparr>)"
  by (auto simp: static_def less_two)

lemma cooldown_after_applyForce:
  "length (e_particles s) = 2 \<Longrightarrow> k < 2 \<Longrightarrow>
     p_collisionCooldown ((e_particles s)[i := applyForce (e_particles s ! i) f] ! k)
       = p_collisionCooldown (e_particles s ! k)"
  by (cases "i = k") simp_all

lemma spawn_one_near:
  assumes "static e s" "0 \<le> rnd (e_randoms s)" "rnd (e_randoms s) < 1"
    "0 \<le> rnd (e_randoms s + 1)" "rnd (e_randoms s + 1) < 1"
  shows "\<exists>sp. e_particlesToAdd (spawn_one rnd 0 1 t s) = e_particlesToAdd s @ [sp] \<and> near_midpoint e t sp"
  using assms
  by (simp add: spawn_one_def Let_def near_midpoint_def static_def same_body_def abs_le_iff)

lemma spawn_one_other:
  "e_rules (spawn_one rnd i j t s) = e_rules s" "e_options (spawn_one rnd i j t s) = e_options s"
  "e_collisionsThisFrame (spawn_one rnd i j t s) = e_collisionsThisFrame s"
  by (simp_all add: spawn_one_def Let_def)

lemma static_spawn_one: "static e s \<Longrightarrow> static e (spawn_one rnd i j t s)"
  by (simp add: static_def spawn_one_other spawn_one_keeps)

lemma two_spawns:
  assumes "static e s" "\<forall>k. 0 \<le> rnd k \<and> rnd k < 1" "e_particlesToAdd s = []"
  shows "static e (create_loop rnd 0 1 t 2 s)
     \<and> e_particles (create_loop rnd 0 1 t 2 s) = e_particles s
     \<and> e_particlesToRemove (create_loop rnd 0 1 t 2 s) = e_particlesToRemove s
     \<and> length (e_particlesToAdd (create_loop rnd 0 1 t 2 s)) = 2
     \<and> list_all (near_midpoint e t) (e_particlesToAdd (create_loop rnd 0 1 t 2 s))"
proof -
  let ?s1 = "spawn_one rnd 0 1 t s"
  let ?s2 = "spawn_one rnd 0 1 t ?s1"
  have c: "create_loop rnd 0 1 t 2 s = ?s2"
    by (simp add: numeral_2_eq_2)
  have st1: "static e ?s1" by (rule static_spawn_one [OF assms(1)])
  have st2: "static e ?s2" by (rule static_spawn_one [OF st1])
  from spawn_one_near [OF assms(1), of rnd t] assms(2,3)
  obtain sp1 where 1: "e_particlesToAdd ?s1 = [sp1]" "near_midpoint e t sp1" by auto
  from spawn_one_near [OF st1, of rnd t] assms(2)
  obtain sp2 where 2: "e_particlesToAdd ?s2 = e_particlesToAdd ?s1 @ [sp2]" "near_midpoint e t sp2"
    by auto
  show ?thesis unfolding c using st2 1 2 by (simp add: spawn_one_keeps)
qed

lemma calculateForce_returns:
  "rules (p_type this) \<noteq> None \<Longrightarrow> \<exists>f. calculateForce this otherParticle rules opts = Inr f"
  by (auto simp: calculateForce_def Let_def)

lemma setup_rows:
  assumes "collision_setup rnd e t r ratio"
  shows "e_rules e (p_type (e_particles e ! 0)) \<noteq> None" "e_rules e (p_type (e_particles e ! 1)) \<noteq> None"
  using assms by (auto simp: collision_setup_def rule_at_def split: option.splits)

lemma checkCollision_cooling:
  "p_collisionCooldown (e_particles s ! i) > 0 \<or> p_collisionCooldown (e_particles s ! j) > 0 \<Longrightarrow>
     checkCollision rnd i j s = s"
  by (auto simp: checkCollision_def Let_def)

lemma distance_sym:
  "sqrt ((a - b) * (a - b) + (c - d) * (c - d)) = sqrt ((b - a) * (b - a) + (d - c) * (d - (c::real)))"
proof -
  have "(a - b) * (a - b) = (b - a) * (b - a)" "(c - d) * (c - d) = (d - c) * (d - c)"
    by (simp_all add: algebra_simps)
  then show ?thesis by simp
qed

lemma set_cooldown_two:
  assumes "length ps = 2"
  shows "set_cooldown 1 c (set_cooldown 0 c ps) ! 0 = (ps ! 0)\<lparr>p_collisionCooldown := c\<rparr>"
    "set_cooldown 1 c (set_cooldown 0 c ps) ! 1 = (ps ! 1)\<lparr>p_collisionCooldown := c\<rparr>"
    "length (set_cooldown 1 c (set_cooldown 0 c ps)) = 2"
  using assms by (simp_all add: set_cooldown_def)

lemma processCollision_first:
  assumes su: "collision_setup rnd e t r ratio" and b: "before_collision e s"
  shows "after_collision e t (processCollision rnd 0 1 s)"
proof -
  from b have st: "static e s" and add: "e_particlesToAdd s = []" and rem: "e_particlesToRemove s = []"
    by (simp_all add: before_collision_def)
  from st have len: "length (e_particles s) = 2" by (simp add: static_def)
  from st su have ru: "rule_at (e_rules s) (p_type (e_particles s ! 0)) (p_type (e_particles s ! 1)) = Some r"
    by (simp add: static_def same_body_def collision_setup_def)
  from su have cr: "createParticles r = [\<lparr>cr_type = t, cr_count = 2\<rparr>]" and nd: "\<not> destroyOriginals r"
    and rn: "\<forall>k. 0 \<le> rnd k \<and> rnd k < 1"
    by (simp_all add: collision_setup_def)
  define s1 where "s1 = s\<lparr>e_particles := set_cooldown 1 COLLISION_COOLDOWN_FRAMES
                     (set_cooldown 0 COLLISION_COOLDOWN_FRAMES (e_particles s))\<rparr>"
  define s2 where "s2 = create_loop rnd 0 1 t 2 s1"
  have st1: "static e s1"
    using st set_cooldown_two [OF len, of COLLISION_COOLDOWN_FRAMES] by (simp add: static_def s1_def)
  have add1: "e_particlesToAdd s1 = []" using add by (simp add: s1_def)
  from two_spawns [OF st1 rn add1, of t]
  have sp: "static e s2" "e_particles s2 = e_particles s1" "e_particlesToRemove s2 = e_particlesToRemove s1"
    "length (e_particlesToAdd s2) = 2" "list_all (near_midpoint e t) (e_particlesToAdd s2)"
    by (simp_all add: s2_def)
  have pc: "processCollision rnd 0 1 s =
      s2\<lparr>e_collisionsThisFrame := e_collisionsThisFrame s2 + 1,
         e_collisionsProcessed := e_collisionsProcessed s2 + 1\<rparr>"
    using ru cr nd by (simp add: processCollision_def Let_def s1_def s2_def)
  have cd: "p_collisionCooldown (e_particles s2 ! 0) > 0" "p_collisionCooldown (e_particles s2 ! 1) > 0"
    using set_cooldown_two [OF len, of COLLISION_COOLDOWN_FRAMES]
    by (simp_all add: sp(2) s1_def COLLISION_COOLDOWN_FRAMES_def)
  have "static e (processCollision rnd 0 1 s)"
    using sp(1) unfolding pc by (simp add: static_def)
  moreover have "e_particlesToRemove (processCollision rnd 0 1 s) = []"
    using rem unfolding pc by (simp add: sp(3) s1_def)
  moreover have "length (e_particlesToAdd (processCollision rnd 0 1 s)) = 2"
    "list_all (near_midpoint e t) (e_particlesToAdd (processCollision rnd 0 1 s))"
    using sp(4,5) unfolding pc by simp_all
  moreover have "p_collisionCooldown (e_particles (processCollision rnd 0 1 s) ! 0) > 0"
    "p_collisionCooldown (e_particles (processCollision rnd 0 1 s) ! 1) > 0"
    using cd unfolding pc by simp_all
  ultimately show ?thesis by (simp add: after_collision_def)
qed

lemma checkCollision_first:
  assumes su: "collision_setup rnd e t r ratio" and b: "before_collision e s"
  shows "after_collision e t (checkCollision rnd 0 1 s)"
proof -
  from b have st: "static e s" and c: "p_collisionCooldown (e_particles s ! 0) = 0"
    "p_collisionCooldown (e_particles s ! 1) = 0"
    by (simp_all add: before_collision_def)
  from st su have ra: "opt_collisionDistanceRatio (e_options s) = Some ratio"
    by (simp add: static_def collision_setup_def)
  from st su have
    "sqrt ((p_x (e_particles s ! 0) - p_x (e_particles s ! 1)) * (p_x (e_particles s ! 0) - p_x (e_particles s ! 1))
         + (p_y (e_particles s ! 0) - p_y (e_particles s ! 1)) * (p_y (e_particles s ! 0) - p_y (e_particles s ! 1)))
      < (p_size (e_particles s ! 0) + p_size (e_particles s ! 1)) * ratio"
    unfolding static_def same_body_def collision_setup_def pair_distance_def
    by (subst distance_sym) simp
  with c ra have "checkCollision rnd 0 1 s = processCollision rnd 0 1 s"
    by (simp add: checkCollision_def Let_def)
  with processCollision_first [OF su b] show ?thesis by simp
qed

lemma first_interaction:
  assumes su: "collision_setup rnd e t r ratio" and b: "before_collision e s"
  shows "\<exists>s'. calculateParticleInteraction rnd 0 1 s = Inr s' \<and> after_collision e t s'"
proof -
  from b have st: "static e s" by (simp add: before_collision_def)
  from st setup_rows(1) [OF su] have "e_rules s (p_type (e_particles s ! 0)) \<noteq> None"
    by (simp add: static_def same_body_def)
  from calculateForce_returns [where rules = "e_rules s" and this = "e_particles s ! 0", OF this]
  obtain f where
    cf: "calculateForce (e_particles s ! 0) (e_particles s ! 1) (e_rules s) (e_options s) = Inr f"
    by blast
  let ?s1 = "s\<lparr>e_particles := (e_particles s)[0 := applyForce (e_particles s ! 0) f]\<rparr>"
  have b1: "before_collision e ?s1"
    using b static_applyForce [OF st, of 0 f]
    by (simp add: before_collision_def static_def)
  have a: "after_collision e t (checkCollision rnd 0 1 ?s1)"
    by (rule checkCollision_first [OF su b1])
  have c0: "e_collisionsThisFrame ?s1 < MAX_COLLISIONS_PER_FRAME"
    using b by (simp add: before_collision_def MAX_COLLISIONS_PER_FRAME_def)
  have "calculateParticleInteraction rnd 0 1 s =
      Inr ((checkCollision rnd 0 1 ?s1)\<lparr>e_forceCalculations := e_forceCalculations (checkCollision rnd 0 1 ?s1) + 1\<rparr>)"
    using c0 unfolding calculateParticleInteraction_def cf by (simp add: Let_def)
  moreover have "after_collision e t ((checkCollision rnd 0 1 ?s1)\<lparr>e_forceCalculations := e_forceCalculations (checkCollision rnd 0 1 ?s1) + 1\<rparr>)"
    using a by (simp add: after_collision_def static_def)
  ultimately show ?thesis by blast
qed

lemma later_interaction:
  assumes su: "collision_setup rnd e t r ratio" and a: "after_collision e t s"
    and ij: "i < 2" "j < 2"
  shows "\<exists>s'. calculateParticleInteraction rnd i j s = Inr s' \<and> after_collision e t s'"
proof -
  from a have st: "static e s" by (simp add: after_collision_def)
  from st have len: "length (e_particles s) = 2" by (simp add: static_def)
  from st setup_rows [OF su] ij(1) have "e_rules s (p_type (e_particles s ! i)) \<noteq> None"
    by (auto simp: static_def same_body_def less_two)
  from calculateForce_returns [where rules = "e_rules s" and this = "e_particles s ! i", OF this]
  obtain f where
    cf: "calculateForce (e_particles s ! i) (e_particles s ! j) (e_rules s) (e_options s) = Inr f"
    by blast
  let ?s1 = "s\<lparr>e_particles := (e_particles s)[i := applyForce (e_particles s ! i) f]\<rparr>"
  have cd: "p_collisionCooldown (e_particles ?s1 ! 0) > 0" "p_collisionCooldown (e_particles ?s1 ! 1) > 0"
    using a cooldown_after_applyForce [OF len, of _ i f] by (simp_all add: after_collision_def)
  have a1: "after_collision e t ?s1"
    using a cd static_applyForce [OF st ij(1), of f] by (simp add: after_collision_def)
  have "p_collisionCooldown (e_particles ?s1 ! i) > 0"
    using cd ij(1) by (auto simp: less_two)
  then have ck: "checkCollision rnd i j ?s1 = ?s1"
    by (simp add: checkCollision_cooling)
  have "calculateParticleInteraction rnd i j s =
      Inr (?s1\<lparr>e_forceCalculations := e_forceCalculations ?s1 + 1\<rparr>)"
    unfolding calculateParticleInteraction_def cf using ck by (simp add: Let_def)
  moreover have "after_collision e t (?s1\<lparr>e_forceCalculations := e_forceCalculations ?s1 + 1\<rparr>)"
    using a1 by (simp add: after_collision_def static_def)
  ultimately show ?thesis by blast
qed

lemma inner_after:
  assumes su: "collision_setup rnd e t r ratio" and i: "i < 2"
  shows "after_collision e t s \<Longrightarrow> \<forall>x\<in>set xs. x < 2 \<Longrightarrow>
     \<exists>s'. forEachE (\<lambda>other e''. if i \<noteq> other then calculateParticleInteraction rnd i other e''
                                  else Inr e'') xs s = Inr s' \<and> after_collision e t s'"
proof (induction xs arbitrary: s)
  case Nil
  then show ?case by simp
next
  case (Cons x xs)
  show ?case
  proof (cases "i = x")
    case True
    with Cons show ?thesis by simp
  next
    case False
    from Cons.prems(2) have x: "x < 2" by simp
    from later_interaction [OF su Cons.prems(1) i x] obtain s1 where
      1: "calculateParticleInteraction rnd i x s = Inr s1" and 2: "after_collision e t s1"
      by blast
    from Cons.IH [OF 2] Cons.prems(2) obtain s' where
      "forEachE (\<lambda>other e''. if i \<noteq> other then calculateParticleInteraction rnd i other e''
                                  else Inr e'') xs s1 = Inr s'" "after_collision e t s'"
      by auto
    with False 1 show ?thesis by simp
  qed
qed

lemma inner_before:
  assumes su: "collision_setup rnd e t r ratio"
  shows "before_collision e s \<Longrightarrow> 1 \<in> set xs \<Longrightarrow> \<forall>x\<in>set xs. x < 2 \<Longrightarrow>
     \<exists>s'. forEachE (\<lambda>other e''. if 0 \<noteq> other then calculateParticleInteraction rnd 0 other e''
                                  else Inr e'') xs s = Inr s' \<and> after_collision e t s'"
proof (induction xs arbitrary: s)
  case Nil
  then show ?case by simp
next
  case (Cons x xs)
  from Cons.prems(3) have x: "x = 0 \<or> x = 1" by auto
  then show ?case
  proof
    assume x0: "x = 0"
    with Cons.prems(2) have "1 \<in> set xs" by simp
    from Cons.IH [OF Cons.prems(1) this] Cons.prems(3) x0 show ?thesis by simp
  next
    assume x1: "x = 1"
    from first_interaction [OF su Cons.prems(1)] obtain s1 where
      1: "calculateParticleInteraction rnd 0 1 s = Inr s1" and 2: "after_collision e t s1"
      by blast
    from inner_after [OF su _ 2, of 0 xs] Cons.prems(3) obtain s' where
      "forEachE (\<lambda>other e''. if 0 \<noteq> other then calculateParticleInteraction rnd 0 other e''
                                  else Inr e'') xs s1 = Inr s'" "after_collision e t s'"
      by auto
    with x1 1 show ?thesis by simp
  qed
qed

lemma upt_two: "[0..<2] = [0, Suc 0]" "[Suc 0..<2] = [Suc 0]" "[Suc (Suc 0)..<2] = []"
  by (simp_all add: upt_rec)

lemma bruteForce_two:
  assumes su: "collision_setup rnd e t r ratio" and b: "before_collision e s"
  shows "\<exists>s'. calculateForcesBruteForce rnd s = Inr s' \<and> after_collision e t s'"
proof -
  from b have len: "length (e_particles s) = 2" by (simp add: before_collision_def static_def)
  from first_interaction [OF su b] obtain s1 where
    1: "calculateParticleInteraction rnd 0 1 s = Inr s1" and a1: "after_collision e t s1"
    by blast
  from later_interaction [OF su a1, of 1 0] obtain s2 where
    2: "calculateParticleInteraction rnd 1 0 s1 = Inr s2" and a2: "after_collision e t s2"
    by auto
  have "calculateForcesBruteForce rnd s = Inr s2"
    unfolding calculateForcesBruteForce_def len
    using 1 2 by (simp add: upt_two)
  with a2 show ?thesis by blast
qed

lemma quadtree_two:
  assumes su: "collision_setup rnd e t r ratio" and b: "before_collision e s"
    and cap: "0 < opt_quadtreeCapacity (e_options e)"
    and c0: "contains \<lparr>r_x = 0, r_y = 0, r_width = e_canvasWidth s, r_height = e_canvasHeight s\<rparr>
               (p_x (e_particles e ! 0), p_y (e_particles e ! 0))"
    and c1: "contains \<lparr>r_x = 0, r_y = 0, r_width = e_canvasWidth s, r_height = e_canvasHeight s\<rparr>
               (p_x (e_particles e ! 1), p_y (e_particles e ! 1))"
    and md: "opt_maxDistance (e_options e) = Some md"
    and d: "pair_distance (e_particles e ! 0) (e_particles e ! 1) \<le> md"
  shows "\<exists>s'. calculateForcesWithQuadtree rnd s = Inr s' \<and> after_collision e t s'"
proof -
  from b have st: "static e s" by (simp add: before_collision_def)
  then have len: "length (e_particles s) = 2" and op: "e_options s = e_options e"
    and p0: "p_x (e_particles s ! 0) = p_x (e_particles e ! 0)" "p_y (e_particles s ! 0) = p_y (e_particles e ! 0)"
    and p1: "p_x (e_particles s ! 1) = p_x (e_particles e ! 1)" "p_y (e_particles s ! 1) = p_y (e_particles e ! 1)"
    by (simp_all add: static_def same_body_def)
  define bd where "bd = \<lparr>r_x = 0, r_y = 0, r_width = e_canvasWidth s, r_height = e_canvasHeight s\<rparr>"
  define root :: "nat quadtree" where "root = Quadtree bd (opt_quadtreeCapacity (e_options s))"
  have rt: "quadrants_ok root" "0 < capacity root" "inside (position_of (e_particles s)) root"
    "elems root = {}" "boundary root = bd"
    using cap op by (simp_all add: root_def Quadtree_def)
  from insertAll_total [OF rt(1,2)] obtain tree where
    tr: "insertAll (position_of (e_particles s)) root [0..<2] = Some tree" by blast
  from insertAll_partial [OF tr rt(1,3)]
  have ins: "inside (position_of (e_particles s)) tree"
    and el: "elems tree = {p \<in> set [0..<2]. contains bd (position_of (e_particles s) p)}"
    by (simp_all add: rt)
  have el2: "elems tree = {0, 1}"
    unfolding el using c0 c1 p0 p1 by (auto simp: position_of_def bd_def less_two)
  define sq where "sq = s\<lparr>e_quadtree := Some tree\<rparr>"
  have bq: "before_collision e (sq\<lparr>e_quadtreeQueries := e_quadtreeQueries sq + 1\<rparr>)"
    using b by (simp add: sq_def before_collision_def static_def)
  have psq: "e_particles sq = e_particles s" "e_options sq = e_options e"
    by (simp_all add: sq_def op)
  \<comment> \<open>the query for particle 0 finds particle 1\<close>
  define near0 where "near0 = queryCircle (position_of (e_particles sq)) tree
      (p_x (e_particles sq ! 0)) (p_y (e_particles sq ! 0)) md []"
  have n0: "set near0 = {p \<in> elems tree. in_circle (position_of (e_particles s))
      (p_x (e_particles s ! 0)) (p_y (e_particles s ! 0)) md p}"
    using queryCircle_set [OF ins, of _ _ md "[]"] by (simp add: near0_def psq)
  have "in_circle (position_of (e_particles s)) (p_x (e_particles s ! 0)) (p_y (e_particles s ! 0)) md 1"
    by (rule in_circle_distance [where a = "p_x (e_particles s ! 1)" and b = "p_y (e_particles s ! 1)"])
       (use d p0 p1 in \<open>simp_all add: pair_distance_def position_of_def\<close>)
  then have one: "1 \<in> set near0" by (simp add: n0 el2)
  have lt0: "\<forall>x\<in>set near0. x < 2" by (auto simp: n0 el2)
  from inner_before [OF su bq one lt0] obtain sA where
    A: "forEachE (\<lambda>other e''. if 0 \<noteq> other then calculateParticleInteraction rnd 0 other e''
                                  else Inr e'') near0 (sq\<lparr>e_quadtreeQueries := e_quadtreeQueries sq + 1\<rparr>) = Inr sA"
    and aA: "after_collision e t sA" by blast
  \<comment> \<open>the query for particle 1 finds only particles 0 and 1\<close>
  define near1 where "near1 = (case opt_maxDistance (e_options sA) of
       None \<Rightarrow> []
     | Some radius \<Rightarrow> queryCircle (position_of (e_particles sA)) tree
          (p_x (e_particles sA ! 1)) (p_y (e_particles sA ! 1)) radius [])"
  have "set near1 \<subseteq> elems tree"
    using queryCircle_subset [of "position_of (e_particles sA)" tree _ _ _ "[]"]
    by (auto simp: near1_def split: option.splits)
  then have lt1: "\<forall>x\<in>set near1. x < 2" by (auto simp: el2)
  have aA': "after_collision e t (sA\<lparr>e_quadtreeQueries := e_quadtreeQueries sA + 1\<rparr>)"
    using aA by (simp add: after_collision_def static_def)
  from inner_after [OF su _ aA' lt1, of 1] obtain sB where
    B: "forEachE (\<lambda>other e''. if 1 \<noteq> other then calculateParticleInteraction rnd 1 other e''
                                  else Inr e'') near1 (sA\<lparr>e_quadtreeQueries := e_quadtreeQueries sA + 1\<rparr>) = Inr sB"
    and aB: "after_collision e t sB" by auto
  define F where "F = (\<lambda>i e'.
                      (let nearbyParticles =
                             (case opt_maxDistance (e_options e') of
                                None \<Rightarrow> []
                              | Some radius \<Rightarrow>
                                  queryCircle (position_of (e_particles e')) tree
                                    (p_x (e_particles e' ! i)) (p_y (e_particles e' ! i)) radius [])
                       in forEachE (\<lambda>other e''.
                              if i \<noteq> other then calculateParticleInteraction rnd i other e''
                              else Inr e'')
                            nearbyParticles
                            (e'\<lparr>e_quadtreeQueries := e_quadtreeQueries e' + 1\<rparr>)))"
  have cf: "calculateForcesWithQuadtree rnd s = forEachE F [0..<2] sq"
    unfolding calculateForcesWithQuadtree_def len Let_def F_def sq_def
    using tr by (simp add: root_def bd_def)
  have F0: "F 0 sq = Inr sA"
    unfolding F_def Let_def using A by (simp add: psq(2) md near0_def)
  have F1: "F 1 sA = Inr sB"
    unfolding F_def Let_def using B by (simp add: near1_def)
  have "calculateForcesWithQuadtree rnd s = Inr sB"
    unfolding cf using F0 F1 by (simp add: upt_two)
  with aB show ?thesis by blast
qed

lemmas engine_eval =
  PhysicsEngine_update_def calculateForces_def calculateForcesBruteForce_def begin_frame_def
  calculateParticleInteraction_def checkCollision_def processCollision_def applyEdgeRepulsion_def
  calculateForce_def set_cooldown_def spawn_one_def rule_at_def applyForce_def resetForces_def
  c5_bruteForce_def c5_engine_def setParticles_def engine_setRules_def PhysicsEngine_def
  c5_rules_def c5_pa_def c5_pb_def Particle_def defaultOptions_def js_or_def full_rule_def
  neutral_rule_def MAX_COLLISIONS_PER_FRAME_def COLLISION_COOLDOWN_FRAMES_def upt_two Let_def

lemma c10_eval:
  "map_sum id (\<lambda>x. particlesToRemove (fst x)) (PhysicsEngine_update (\<lambda>k. 1 / 2) 800 600 c10_engine)
     = Inr [0, 1]"
  by (simp add: engine_eval c10_engine_def c10_rules_def)

theorem update_removes_each_particle_once_witness:
  "\<exists>res e' store. PhysicsEngine_update (\<lambda>k. 1 / 2) 800 600 c10_engine = Inr (res, e', store)
     \<and> particlesToRemove res = [0, 1] \<and> distinct (particlesToRemove res)"
proof -
  from c10_eval obtain res e' store where
    u: "PhysicsEngine_update (\<lambda>k. 1 / 2) 800 600 c10_engine = Inr (res, e', store)"
    and r: "particlesToRemove res = [0, 1]"
    by (cases "PhysicsEngine_update (\<lambda>k. 1 / 2) 800 600 c10_engine") auto
  from update_removes_each_particle_once [OF u] have d: "distinct (particlesToRemove res)" .
  show ?thesis
  proof (intro exI conjI)
    show "PhysicsEngine_update (\<lambda>k. 1 / 2) 800 600 c10_engine = Inr (res, e', store)" by (rule u)
    show "particlesToRemove res = [0, 1]" by (rule r)
    show "distinct (particlesToRemove res)" by (rule d)
  qed
qed

text \<open>
  When the direction with the creating rule is the first one evaluated, the update
  returns the two requests.  Two particles \<open>pa\<close> (first in the particle array) and
  \<open>pb\<close> (second) with zero cooldown and within collision distance, a rule from the
  type of \<open>pa\<close> to the type of \<open>pb\<close> that creates two particles of type \<open>t\<close> and
  does not destroy the originals, a row of the rules object for the type of \<open>pb\<close>,
  and random numbers in \<open>[0, 1)\<close>; in quadtree mode moreover a capacity of at least
  \<open>1\<close>, both particles inside the canvas rectangle and their distance at most
  \<open>maxDistance\<close>.  Then one \<open>update\<close> returns, with exactly two spawn requests, both
  of type \<open>t\<close> and within \<open>5\<close> of the midpoint of the pair on each axis, and nothing
  to remove.
\<close>

lemma collision_spawns_two:
  assumes ps: "e_particles e = [pa, pb]"
    and cool: "p_collisionCooldown pa = 0" "p_collisionCooldown pb = 0"
    and ru: "rule_at (e_rules e) (p_type pa) (p_type pb) = Some r"
    and cr: "createParticles r = [\<lparr>cr_type = t, cr_count = 2\<rparr>]" and nd: "\<not> destroyOriginals r"
    and row: "e_rules e (p_type pb) \<noteq> None"
    and ra: "opt_collisionDistanceRatio (e_options e) = Some ratio"
    and close: "pair_distance pa pb < (p_size pa + p_size pb) * ratio"
    and rn: "\<forall>k. 0 \<le> rnd k \<and> rnd k < 1"
    and qt: "opt_useQuadtree (e_options e) \<Longrightarrow>
               0 < opt_quadtreeCapacity (e_options e)
               \<and> contains \<lparr>r_x = 0, r_y = 0, r_width = canvasWidth, r_height = canvasHeight\<rparr> (p_x pa, p_y pa)
               \<and> contains \<lparr>r_x = 0, r_y = 0, r_width = canvasWidth, r_height = canvasHeight\<rparr> (p_x pb, p_y pb)
               \<and> opt_maxDistance (e_options e) = Some md \<and> pair_distance pa pb \<le> md"
  shows "\<exists>res e' store. PhysicsEngine_update rnd canvasWidth canvasHeight e = Inr (res, e', store)
           \<and> length (particlesToAdd res) = 2
           \<and> list_all (\<lambda>sp. s_type sp = t
                             \<and> \<bar>s_x sp - (p_x pa + p_x pb) / 2\<bar> \<le> 5
                             \<and> \<bar>s_y sp - (p_y pa + p_y pb) / 2\<bar> \<le> 5) (particlesToAdd res)
           \<and> particlesToRemove res = []"
proof -
  let ?e0 = "begin_frame canvasWidth canvasHeight e"
  have su: "collision_setup rnd e t r ratio"
    using ps ru cr nd row ra close rn by (simp add: collision_setup_def)
  have b: "before_collision e ?e0"
    using ps cool
    by (simp add: before_collision_def static_def begin_frame_def same_body_def resetForces_def)
  have "\<exists>s'. calculateForces rnd ?e0 = Inr s' \<and> after_collision e t s'"
  proof (cases "opt_useQuadtree (e_options e)")
    case False
    then have "calculateForces rnd ?e0 = calculateForcesBruteForce rnd ?e0"
      by (simp add: calculateForces_def begin_frame_def)
    with bruteForce_two [OF su b] show ?thesis by simp
  next
    case True
    then have c: "calculateForces rnd ?e0 = calculateForcesWithQuadtree rnd ?e0"
      using ps by (simp add: calculateForces_def begin_frame_def)
    have cw: "e_canvasWidth ?e0 = canvasWidth" "e_canvasHeight ?e0 = canvasHeight"
      by (simp_all add: begin_frame_def)
    from qt [OF True] ps have q: "0 < opt_quadtreeCapacity (e_options e)"
      "contains \<lparr>r_x = 0, r_y = 0, r_width = e_canvasWidth ?e0, r_height = e_canvasHeight ?e0\<rparr>
               (p_x (e_particles e ! 0), p_y (e_particles e ! 0))"
      "contains \<lparr>r_x = 0, r_y = 0, r_width = e_canvasWidth ?e0, r_height = e_canvasHeight ?e0\<rparr>
               (p_x (e_particles e ! 1), p_y (e_particles e ! 1))"
      "opt_maxDistance (e_options e) = Some md"
      "pair_distance (e_particles e ! 0) (e_particles e ! 1) \<le> md"
      unfolding cw by simp_all
    from quadtree_two [OF su b q] c show ?thesis by simp
  qed
  then obtain s' where f: "calculateForces rnd ?e0 = Inr s'" and a: "after_collision e t s'"
    by blast
  let ?e2 = "applyEdgeRepulsion canvasWidth canvasHeight s'"
  have u: "PhysicsEngine_update rnd canvasWidth canvasHeight e =
      Inr (\<lparr>particlesToAdd = e_particlesToAdd ?e2, particlesToRemove = e_particlesToRemove ?e2,
             collisionsThisFrame = e_collisionsThisFrame ?e2\<rparr>,
           ?e2, map (update canvasWidth canvasHeight) (e_particles ?e2))"
    by (simp add: PhysicsEngine_update_def f Let_def)
  have l: "e_particlesToAdd ?e2 = e_particlesToAdd s'" "e_particlesToRemove ?e2 = e_particlesToRemove s'"
    by (simp_all add: applyEdgeRepulsion_def)
  have nm: "near_midpoint e t = (\<lambda>sp. s_type sp = t
                             \<and> \<bar>s_x sp - (p_x pa + p_x pb) / 2\<bar> \<le> 5
                             \<and> \<bar>s_y sp - (p_y pa + p_y pb) / 2\<bar> \<le> 5)"
    using ps by (simp add: near_midpoint_def fun_eq_iff)
  from a have "length (e_particlesToAdd s') = 2" "list_all (near_midpoint e t) (e_particlesToAdd s')"
    "e_particlesToRemove s' = []"
    by (simp_all add: after_collision_def)
  then show ?thesis unfolding u nm using l by simp
qed

lemma collision_spawns_two_example:
  "\<exists>res e' store. PhysicsEngine_update (\<lambda>k. 1 / 2) 800 600 (c5_engine [c5_pa, c5_pb]) = Inr (res, e', store)
     \<and> length (particlesToAdd res) = 2 \<and> map s_type (particlesToAdd res) = [''C'', ''C'']
     \<and> particlesToRemove res = []"
proof -
  have d: "pair_distance c5_pa c5_pb = 1"
    by (simp add: pair_distance_def c5_pa_def c5_pb_def Particle_def)
  have h: "e_particles (c5_engine [c5_pa, c5_pb]) = [c5_pa, c5_pb]"
    "p_collisionCooldown c5_pa = 0" "p_collisionCooldown c5_pb = 0"
    "rule_at (e_rules (c5_engine [c5_pa, c5_pb])) (p_type c5_pa) (p_type c5_pb)
       = Some (full_rule\<lparr>createParticles := [\<lparr>cr_type = ''C'', cr_count = 2\<rparr>]\<rparr>)"
    "createParticles (full_rule\<lparr>createParticles := [\<lparr>cr_type = ''C'', cr_count = 2\<rparr>]\<rparr>)
       = [\<lparr>cr_type = ''C'', cr_count = 2\<rparr>]"
    "\<not> destroyOriginals (full_rule\<lparr>createParticles := [\<lparr>cr_type = ''C'', cr_count = 2\<rparr>]\<rparr>)"
    "e_rules (c5_engine [c5_pa, c5_pb]) (p_type c5_pb) \<noteq> None"
    "opt_collisionDistanceRatio (e_options (c5_engine [c5_pa, c5_pb])) = Some 2"
    "pair_distance c5_pa c5_pb < (p_size c5_pa + p_size c5_pb) * 2"
    "\<forall>k::nat. 0 \<le> (1 / 2 :: real) \<and> (1 / 2 :: real) < 1"
    unfolding d
    by (simp_all add: c5_engine_def setParticles_def engine_setRules_def PhysicsEngine_def
        c5_rules_def c5_pa_def c5_pb_def Particle_def defaultOptions_def js_or_def rule_at_def
        full_rule_def)
  have q: "opt_useQuadtree (e_options (c5_engine [c5_pa, c5_pb])) \<Longrightarrow>
               0 < opt_quadtreeCapacity (e_options (c5_engine [c5_pa, c5_pb]))
               \<and> contains \<lparr>r_x = 0, r_y = 0, r_width = 800, r_height = 600\<rparr> (p_x c5_pa, p_y c5_pa)
               \<and> contains \<lparr>r_x = 0, r_y = 0, r_width = 800, r_height = 600\<rparr> (p_x c5_pb, p_y c5_pb)
               \<and> opt_maxDistance (e_options (c5_engine [c5_pa, c5_pb])) = Some 80
               \<and> pair_distance c5_pa c5_pb \<le> 80"
    unfolding d
    by (simp add: c5_engine_def setParticles_def engine_setRules_def PhysicsEngine_def
        c5_pa_def c5_pb_def Particle_def defaultOptions_def contains_def)
  from collision_spawns_two [OF h q] obtain res e' store where
    u: "PhysicsEngine_update (\<lambda>k. 1 / 2) 800 600 (c5_engine [c5_pa, c5_pb]) = Inr (res, e', store)"
    and l: "length (particlesToAdd res) = 2"
    and a: "list_all (\<lambda>sp. s_type sp = ''C''
                             \<and> \<bar>s_x sp - (p_x c5_pa + p_x c5_pb) / 2\<bar> \<le> 5
                             \<and> \<bar>s_y sp - (p_y c5_pa + p_y c5_pb) / 2\<bar> \<le> 5) (particlesToAdd res)"
    and r: "particlesToRemove res = []"
    by blast
  from l obtain s1 s2 where "particlesToAdd res = [s1, s2]"
    by (cases "particlesToAdd res"; cases "tl (particlesToAdd res)") auto
  with a have m: "map s_type (particlesToAdd res) = [''C'', ''C'']" by simp
  show ?thesis
    by (rule exI [of _ res], rule exI [of _ e'], rule exI [of _ store]) (simp add: u l r m)
qed

lemma c5_distance: "pair_distance c5_pb c5_pa = 1"
  by (simp add: pair_distance_def c5_pa_def c5_pb_def Particle_def)

lemma c5_eval_order_AB:
  "map_sum id (\<lambda>x. map s_type (particlesToAdd (fst x)))
     (PhysicsEngine_update (\<lambda>k. 1 / 2) 800 600 (c5_bruteForce [c5_pa, c5_pb]))
     = Inr [''C'', ''C'']"
  by (simp add: engine_eval numeral_2_eq_2)

text \<open>
  C5.  The scenario of the claim with the particle of type \<open>B\<close> first in the
  particle array: types \<open>A\<close> and \<open>B\<close>, distance \<open>1\<close> with a collision distance of
  \<open>8\<close>, both cooldowns zero, a rule from \<open>A\<close> to \<open>B\<close> that creates two particles of
  type \<open>C\<close> and destroys nothing, and from \<open>B\<close> to \<open>A\<close> the rule that
  \<open>RuleManager.initialize\<close> writes for every ordered pair: no force, nothing to
  destroy, nothing to create.  The direction \<open>B\<close> to \<open>A\<close> is evaluated first.
  \<open>processCollision\<close> finds its rule, starts both cooldowns and counts a collision,
  although that rule has no collision behaviour; the direction \<open>A\<close> to \<open>B\<close> then
  finds both particles cooling down.  One \<open>update\<close> returns one collision and no
  spawn request, where the claim has exactly two requests of type \<open>C\<close>.
\<close>

theorem update_noop_rule_blocks_spawns:
  "map p_type [c5_pb, c5_pa] = [''B'', ''A'']
   \<and> map p_collisionCooldown [c5_pb, c5_pa] = [0, 0]
   \<and> pair_distance c5_pb c5_pa = 1
   \<and> force_collisionDistance c5_pb c5_pa defaultOptions = 8
   \<and> rule_at c5_rules ''A'' ''B''
       = Some (full_rule\<lparr>createParticles := [\<lparr>cr_type = ''C'', cr_count = 2\<rparr>]\<rparr>)
   \<and> rule_at c5_rules ''B'' ''A'' = Some full_rule
   \<and> destroyOriginals full_rule = False \<and> createParticles full_rule = []
   \<and> map_sum id fst (PhysicsEngine_update (\<lambda>k. 1 / 2) 800 600 (c5_bruteForce [c5_pb, c5_pa]))
       = Inr \<lparr>particlesToAdd = [], particlesToRemove = [], collisionsThisFrame = 1\<rparr>"
proof -
  have "map_sum id fst (PhysicsEngine_update (\<lambda>k. 1 / 2) 800 600 (c5_bruteForce [c5_pb, c5_pa]))
       = Inr \<lparr>particlesToAdd = [], particlesToRemove = [], collisionsThisFrame = 1\<rparr>"
    by (simp add: engine_eval)
  moreover have "force_collisionDistance c5_pb c5_pa defaultOptions = 8"
    by (simp add: force_collisionDistance_def c5_pa_def c5_pb_def Particle_def defaultOptions_def
        js_or_def)
  moreover have "rule_at c5_rules ''A'' ''B''
       = Some (full_rule\<lparr>createParticles := [\<lparr>cr_type = ''C'', cr_count = 2\<rparr>]\<rparr>)"
    "rule_at c5_rules ''B'' ''A'' = Some full_rule"
    by (simp_all add: rule_at_def c5_rules_def)
  moreover have "map p_type [c5_pb, c5_pa] = [''B'', ''A'']"
    "map p_collisionCooldown [c5_pb, c5_pa] = [0, 0]"
    by (simp_all add: c5_pa_def c5_pb_def Particle_def)
  ultimately show ?thesis
    by (simp add: c5_distance full_rule_def)
qed
end
